theory Spec2Isabelle
  imports Main
begin

section \<open>Shared data model\<close>

text \<open>
  Go strings and byte slices are sequences of bytes; both are modelled as \<open>string\<close>
  (a list of 8-bit characters). A nil slice and an empty slice are both \<open>[]\<close>.
\<close>

type_synonym bytes = string

record url =
  Scheme :: string
  url_Host :: string
  Path :: string

record request =
  Method :: string
  URL :: url
  Host :: string

text \<open>
  Error values. Each \<open>fmt.Errorf\<close> and \<open>errors.New\<close> site of the source has a
  constructor of its own, holding the formatted arguments; \<open>LibError ty txt\<close> is an
  error value made by a library, with its dynamic type \<open>ty\<close> and its text.
\<close>

datatype go_error =
    EOF
  | ErrUnexpectedEOF
  | NumError string
  | errCouldNotVerify
  | MethodNotSupported string
  | SchemeNotSupported string
  | ErrorConnecting string go_error
  | ErrorSendingRequest url go_error
  | MalformedResponse string
  | MalformedStatusCode string
  | MalformedVersion string
  | InvalidContentLength string
  | ErrorReadingGzipped url go_error
  | CouldNotCreateGzipDecoder url go_error
  | LibError string string

text \<open>A run of a function that does not return normally: it panics.\<close>

datatype go_panic =
    NilDereference
  | IndexOutOfRange
  | SliceBoundsOutOfRange
  | PanicError go_error

text \<open>
  \<open>http.Header\<close>: a map from canonical header names to their values. A nil map reads as
  the empty map. The keys the source uses are already in canonical form, so that
  \<open>Get\<close> and \<open>Del\<close> look the key up as it is written.
\<close>

type_synonym header = "string \<rightharpoonup> string list"

definition Header_Get :: "header \<Rightarrow> string \<Rightarrow> string" where
  "Header_Get h key = (case h key of None \<Rightarrow> [] | Some [] \<Rightarrow> [] | Some (v # _) \<Rightarrow> v)"

definition Header_Del :: "header \<Rightarrow> string \<Rightarrow> header" where
  "Header_Del h key = h(key := None)"

definition Header_Set :: "header \<Rightarrow> string \<Rightarrow> string \<Rightarrow> header" where
  "Header_Set h key v = h(key \<mapsto> [v])"

record certificate =
  Raw :: bytes
  RawSubjectPublicKeyInfo :: bytes

record ConnectionState =
  PeerCertificates :: "certificate list"

text \<open>
  \<open>http.Response\<close>. \<open>Body\<close> is an interface value, \<open>None\<close> when nil; its
  implementation differs from one transport to the other, hence the type parameter.
  \<open>TLS\<close> and \<open>Request\<close> are pointers, \<open>None\<close> when nil.
\<close>

record 'b response =
  Status :: string
  StatusCode :: int
  Proto :: string
  ProtoMajor :: int
  ProtoMinor :: int
  Header :: header
  Body :: "'b option"
  ContentLength :: int
  Request :: "request option"
  TLS :: "ConnectionState option"

text \<open>The zero value \<open>&http.Response{}\<close>.\<close>

definition Response0 :: "'b response" where
  "Response0 = \<lparr>Status = [], StatusCode = 0, Proto = [], ProtoMajor = 0, ProtoMinor = 0,
     Header = Map.empty, Body = None, ContentLength = 0, Request = None, TLS = None\<rparr>"

section \<open>Response Decompressor (phrase\_scan.go, responseContent)\<close>

text \<open>
  The body handed to \<open>responseContent\<close> is any \<open>io.ReadCloser\<close>, given by what it
  does: the bytes its reads deliver, the error that ends them (\<open>None\<close> for \<open>io.EOF\<close>),
  and whether it has been closed.
\<close>

record stream =
  pending :: bytes
  fault :: "go_error option"
  closed :: bool

text \<open>\<open>ioutil.ReadAll\<close>: everything up to the end, \<open>io.EOF\<close> reported as no error.\<close>

definition ReadAll :: "stream \<Rightarrow> (bytes \<times> go_error option) \<times> stream" where
  "ReadAll r = ((pending r, fault r), r\<lparr>pending := []\<rparr>)"

definition Close :: "stream \<Rightarrow> stream" where
  "Close r = r\<lparr>closed := True\<rparr>"

text \<open>The \<open>res.Request.URL\<close> of the panic messages.\<close>

definition panicWithURL :: "'b response \<Rightarrow> (url \<Rightarrow> go_error) \<Rightarrow> go_panic" where
  "panicWithURL res mk =
     (case Request res of None \<Rightarrow> NilDereference | Some rq \<Rightarrow> PanicError (mk (URL rq)))"

text \<open>
  \<open>responseContent\<close>. The gzip package is a library: \<open>gzip_NewReader\<close> stands for
  \<open>gzip.NewReader(bytes.NewBuffer(b))\<close> and \<open>gz_ReadAll\<close> for \<open>ioutil.ReadAll\<close> of
  the reader it makes. The result is the returned content or the panic, with the response
  as the call leaves it: the deferred \<open>r.Close()\<close> runs on every path.
\<close>

definition responseContent ::
  "(bytes \<Rightarrow> go_error + 'gz) \<Rightarrow> ('gz \<Rightarrow> bytes \<times> go_error option) \<Rightarrow>
   stream response \<Rightarrow> (go_panic + bytes) \<times> stream response" where
  "responseContent gzip_NewReader gz_ReadAll res =
     (case Body res of
        None \<Rightarrow> (Inl NilDereference, res)
      | Some r \<Rightarrow>
          if Header_Get (Header res) ''Content-Encoding'' = ''gzip'' then
            (case ReadAll r of ((gzContent, err), r1) \<Rightarrow>
               (case err of
                  Some e \<Rightarrow> (Inl (panicWithURL res (\<lambda>u. ErrorReadingGzipped u e)),
                             res\<lparr>Body := Some (Close r1)\<rparr>)
                | None \<Rightarrow>
                    if length gzContent = 0 then (Inr [], res\<lparr>Body := Some (Close r1)\<rparr>)
                    else
                      (case gzip_NewReader gzContent of
                         Inl e \<Rightarrow> (Inl (panicWithURL res (\<lambda>u. CouldNotCreateGzipDecoder u e)),
                                   res\<lparr>Body := Some (Close r1)\<rparr>)
                       | Inr gz \<Rightarrow>
                           (case gz_ReadAll gz of (content, _) \<Rightarrow>
                              (Inr content,
                               res\<lparr>Header := Header_Del (Header res) ''Content-Encoding'',
                                   Body := Some (Close r1)\<rparr>)))))
          else
            (case ReadAll r of ((content, _), r1) \<Rightarrow>
               (Inr content, res\<lparr>Body := Some (Close r1)\<rparr>)))"


text \<open>
  The path on which the body is decompressed: the response has a body, is flagged
  \<open>gzip\<close>, its body reads without error as bytes that are not empty, and the gzip
  library accepts them.
\<close>

definition decompresses :: "(bytes \<Rightarrow> go_error + 'gz) \<Rightarrow> stream response \<Rightarrow> bool" where
  "decompresses gzip_NewReader res =
     (case Body res of
        None \<Rightarrow> False
      | Some r \<Rightarrow>
          Header_Get (Header res) ''Content-Encoding'' = ''gzip'' \<and> fault r = None \<and>
          pending r \<noteq> [] \<and>
          (case gzip_NewReader (pending r) of Inl err \<Rightarrow> False | Inr gz \<Rightarrow> True))"

subsection \<open>Fixtures\<close>

text \<open>
  Two gzip-flagged responses, one with an empty body and one with three bytes of body, and
  a stand-in for the gzip library that takes exactly those three bytes for the
  compressed form of \<open>hello\<close>, and one that refuses every input.
\<close>

definition gzipFlagged :: "bytes \<Rightarrow> stream response" where
  "gzipFlagged b = Response0
     \<lparr>Header := [''Content-Encoding'' \<mapsto> [''gzip''], ''Content-Type'' \<mapsto> [''text/html'']],
      Body := Some \<lparr>pending = b, fault = None, closed = False\<rparr>\<rparr>"

definition toy_NewReader :: "bytes \<Rightarrow> go_error + bytes" where
  "toy_NewReader b = (if b = ''xyz'' then Inr ''hello'' else Inl (LibError ''*errors.errorString'' ''gzip: invalid header''))"

definition noGzip :: "bytes \<Rightarrow> go_error + bytes" where
  "noGzip b = Inl (LibError ''*errors.errorString'' ''gzip: no decompressor'')"

text \<open>
  A response with another encoding, and a gzip-flagged one whose body breaks off with an
  error.
\<close>

definition deflated :: "stream response" where
  "deflated = Response0
     \<lparr>Header := [''Content-Encoding'' \<mapsto> [''deflate'']],
      Body := Some \<lparr>pending = ''xyz'', fault = None, closed = False\<rparr>\<rparr>"

definition gzipBroken :: "stream response" where
  "gzipBroken = Response0
     \<lparr>Header := [''Content-Encoding'' \<mapsto> [''gzip'']],
      Body := Some \<lparr>pending = ''xy'', fault = Some ErrUnexpectedEOF, closed = False\<rparr>\<rparr>"

definition toy_ReadAll :: "bytes \<Rightarrow> bytes \<times> go_error option" where
  "toy_ReadAll gz = (gz, None)"

subsection \<open>Properties\<close>

text \<open>
  C7. With \<open>Content-Encoding: gzip\<close> and a body that reads as no bytes, the content
  returned is empty and nothing panics, whatever the gzip library would do (the statement
  holds for every \<open>gzip_NewReader\<close>, also one that fails on every input: it is not
  called). With a body that is a non-empty payload which the gzip library accepts and
  reads back as \<open>original\<close>, the content returned is \<open>original\<close> and the response
  is left without its \<open>Content-Encoding\<close> header.
\<close>

theorem responseContent_gzip:
  "(Header_Get (Header res) ''Content-Encoding'' = ''gzip'' \<and> Body res = Some r \<and>
    pending r = [] \<and> fault r = None \<longrightarrow>
      fst (responseContent gzip_NewReader gz_ReadAll res) = Inr []) \<and>
   (Header_Get (Header res) ''Content-Encoding'' = ''gzip'' \<and> Body res = Some r \<and>
    pending r \<noteq> [] \<and> fault r = None \<and>
    gzip_NewReader (pending r) = Inr gz \<and> fst (gz_ReadAll gz) = original \<longrightarrow>
      fst (responseContent gzip_NewReader gz_ReadAll res) = Inr original \<and>
      Header (snd (responseContent gzip_NewReader gz_ReadAll res)) ''Content-Encoding'' = None \<and>
      Header_Get (Header (snd (responseContent gzip_NewReader gz_ReadAll res)))
        ''Content-Encoding'' = [])"
  by (auto simp: responseContent_def ReadAll_def Header_Del_def Header_Get_def
      split: prod.splits)

theorem responseContent_gzip_witness:
  "fst (responseContent noGzip toy_ReadAll (gzipFlagged [])) = Inr [] \<and>
   fst (responseContent toy_NewReader toy_ReadAll (gzipFlagged ''xyz'')) = Inr ''hello'' \<and>
   Header (snd (responseContent toy_NewReader toy_ReadAll (gzipFlagged ''xyz'')))
     ''Content-Encoding'' = None"
proof -
  let ?e = "\<lparr>pending = [], fault = None, closed = False\<rparr>"
  let ?x = "\<lparr>pending = ''xyz'', fault = None, closed = False\<rparr>"
  have a: "Header_Get (Header (gzipFlagged b)) ''Content-Encoding'' = ''gzip''" for b
    by (simp add: gzipFlagged_def Response0_def Header_Get_def)
  have b: "Body (gzipFlagged b) = Some \<lparr>pending = b, fault = None, closed = False\<rparr>" for b
    by (simp add: gzipFlagged_def Response0_def)
  from responseContent_gzip [of "gzipFlagged []" ?e noGzip toy_ReadAll]
  have 1: "fst (responseContent noGzip toy_ReadAll (gzipFlagged [])) = Inr []"
    using a b by simp
  from responseContent_gzip [of "gzipFlagged ''xyz''" ?x toy_NewReader toy_ReadAll "''hello''" "''hello''"]
  have 2: "fst (responseContent toy_NewReader toy_ReadAll (gzipFlagged ''xyz'')) = Inr ''hello'' \<and>
     Header (snd (responseContent toy_NewReader toy_ReadAll (gzipFlagged ''xyz'')))
       ''Content-Encoding'' = None"
    using a b by (simp add: toy_NewReader_def toy_ReadAll_def)
  from 1 2 show ?thesis by simp
qed

text \<open>
  C10. On the empty-body path of a gzip-flagged response the header map is returned as it
  was, \<open>Content-Encoding\<close> included; on every path, the panicking ones too, every
  header other than \<open>Content-Encoding\<close> is as it was; and \<open>Content-Encoding\<close> is
  removed on the decompression path and on no other: on the path of a response that is
  not flagged \<open>gzip\<close>, on the empty-body path and on the two panicking paths the
  header map is returned unchanged.
\<close>

theorem responseContent_headers_frame:
  "(Header_Get (Header res) ''Content-Encoding'' = ''gzip'' \<and> Body res = Some r \<and>
    pending r = [] \<and> fault r = None \<longrightarrow>
      fst (responseContent gzip_NewReader gz_ReadAll res) = Inr [] \<and>
      Header (snd (responseContent gzip_NewReader gz_ReadAll res)) = Header res) \<and>
   (key \<noteq> ''Content-Encoding'' \<longrightarrow>
      Header (snd (responseContent gzip_NewReader gz_ReadAll res)) key = Header res key) \<and>
   Header (snd (responseContent gzip_NewReader gz_ReadAll res)) =
     (if decompresses gzip_NewReader res then Header_Del (Header res) ''Content-Encoding''
      else Header res) \<and>
   (decompresses gzip_NewReader res \<longrightarrow>
      (\<exists>content. fst (responseContent gzip_NewReader gz_ReadAll res) = Inr content))"
  by (auto simp: responseContent_def ReadAll_def Header_Del_def decompresses_def
      split: prod.splits option.splits sum.splits)

theorem responseContent_headers_frame_witness:
  "Header (snd (responseContent toy_NewReader toy_ReadAll (gzipFlagged []))) ''Content-Encoding''
     = Some [''gzip''] \<and>
   Header (snd (responseContent toy_NewReader toy_ReadAll (gzipFlagged ''xyz''))) ''Content-Type''
     = Some [''text/html''] \<and>
   Header (snd (responseContent toy_NewReader toy_ReadAll (gzipFlagged ''xyz''))) ''Content-Encoding''
     = None \<and>
   Header (snd (responseContent toy_NewReader toy_ReadAll deflated)) ''Content-Encoding''
     = Some [''deflate''] \<and>
   Header (snd (responseContent toy_NewReader toy_ReadAll gzipBroken)) ''Content-Encoding''
     = Some [''gzip''] \<and>
   Header (snd (responseContent noGzip toy_ReadAll (gzipFlagged ''xyz''))) ''Content-Encoding''
     = Some [''gzip'']"
proof -
  let ?e = "\<lparr>pending = [], fault = None, closed = False\<rparr>"
  have a: "Header_Get (Header (gzipFlagged b)) ''Content-Encoding'' = ''gzip''" for b
    by (simp add: gzipFlagged_def Response0_def Header_Get_def)
  have b: "Body (gzipFlagged b) = Some \<lparr>pending = b, fault = None, closed = False\<rparr>" for b
    by (simp add: gzipFlagged_def Response0_def)
  have d1: "decompresses toy_NewReader (gzipFlagged ''xyz'')"
    by (simp add: decompresses_def a b toy_NewReader_def)
  have d2: "\<not> decompresses toy_NewReader deflated"
    by (simp add: decompresses_def deflated_def Response0_def Header_Get_def)
  have d3: "\<not> decompresses toy_NewReader gzipBroken"
    by (simp add: decompresses_def gzipBroken_def Response0_def Header_Get_def)
  have d4: "\<not> decompresses noGzip (gzipFlagged ''xyz'')"
    by (simp add: decompresses_def a b noGzip_def)
  from responseContent_headers_frame [of "gzipFlagged []" ?e toy_NewReader toy_ReadAll "''Content-Type''"]
  have 1: "Header (snd (responseContent toy_NewReader toy_ReadAll (gzipFlagged []))) = Header (gzipFlagged [])"
    using a b by simp
  from responseContent_headers_frame [of "gzipFlagged ''xyz''" ?e toy_NewReader toy_ReadAll "''Content-Type''"]
  have 2: "Header (snd (responseContent toy_NewReader toy_ReadAll (gzipFlagged ''xyz''))) =
      Header_Del (Header (gzipFlagged ''xyz'')) ''Content-Encoding''"
    using d1 by simp
  from responseContent_headers_frame [of deflated ?e toy_NewReader toy_ReadAll "''Content-Type''"]
  have 3: "Header (snd (responseContent toy_NewReader toy_ReadAll deflated)) = Header deflated"
    using d2 by simp
  from responseContent_headers_frame [of gzipBroken ?e toy_NewReader toy_ReadAll "''Content-Type''"]
  have 4: "Header (snd (responseContent toy_NewReader toy_ReadAll gzipBroken)) = Header gzipBroken"
    using d3 by simp
  from responseContent_headers_frame [of "gzipFlagged ''xyz''" ?e noGzip toy_ReadAll "''Content-Type''"]
  have 5: "Header (snd (responseContent noGzip toy_ReadAll (gzipFlagged ''xyz''))) =
      Header (gzipFlagged ''xyz'')"
    using d4 by simp
  show ?thesis
    unfolding 1 2 3 4 5
    by (simp add: gzipFlagged_def Response0_def deflated_def gzipBroken_def Header_Del_def)
qed


section \<open>Legacy-Protocol Adapter (transport.go, FTPTransport.RoundTrip)\<close>

text \<open>\<open>path.Ext\<close>: the suffix from the last dot of the last path element, or nothing.\<close>

fun extScan :: "string \<Rightarrow> string \<Rightarrow> string" where
  "extScan [] acc = []"
| "extScan (c # cs) acc =
     (if c = CHR ''/'' then [] else if c = CHR ''.'' then c # acc else extScan cs (c # acc))"

definition path_Ext :: "string \<Rightarrow> string" where
  "path_Ext p = extScan (rev p) []"

text \<open>
  \<open>FTPTransport.RoundTrip\<close>. \<open>ftp_GetAsync\<close> stands for \<open>ftp.GetAsync\<close> writing into
  the pipe, together with the goroutine that closes the pipe's write end on
  \<open>COMPLETED\<close> or \<open>ERROR\<close>: it gives the error of \<open>GetAsync\<close>, or the read end of the
  pipe as the transfer will feed it. \<open>TypeByExtension\<close> is \<open>mime.TypeByExtension\<close>.
  The second component of the result lists the transfers started, that is the network
  accesses made.
\<close>

definition StatusMethodNotAllowed :: int where
  "StatusMethodNotAllowed = 405"

definition FTPTransport_RoundTrip ::
  "(string \<Rightarrow> go_error + stream) \<Rightarrow> (string \<Rightarrow> string) \<Rightarrow> request \<Rightarrow>
   (go_error + stream response) \<times> string list" where
  "FTPTransport_RoundTrip ftp_GetAsync TypeByExtension req =
     (if Method req \<noteq> ''GET'' then
        (Inr (Response0\<lparr>StatusCode := StatusMethodNotAllowed, Request := Some req\<rparr>), [])
      else
        let fullPath = url_Host (URL req) @ Path (URL req) in
        (case ftp_GetAsync fullPath of
           Inl err \<Rightarrow> (Inl err, [fullPath])
         | Inr r \<Rightarrow>
             let resp = Response0\<lparr>StatusCode := 200, ProtoMajor := 1, ProtoMinor := 1,
                          Request := Some req, Body := Some r, Header := Map.empty\<rparr>;
                 ext = path_Ext (Path (URL req));
                 resp = (if ext \<noteq> [] then
                           (let ct = TypeByExtension ext in
                            if ct \<noteq> [] then resp\<lparr>Header := Header_Set (Header resp) ''Content-Type'' ct\<rparr>
                            else resp)
                         else resp)
             in (Inr resp, [fullPath])))"

subsection \<open>Fixtures\<close>

definition ftpPost :: request where
  "ftpPost = \<lparr>Method = ''POST'',
     URL = \<lparr>Scheme = ''ftp'', url_Host = ''example.org'', Path = ''/pub/a.txt''\<rparr>,
     Host = ''example.org''\<rparr>"

definition refuseTransfer :: "string \<Rightarrow> go_error + stream" where
  "refuseTransfer p = Inl (LibError ''*net.OpError'' ''connection refused'')"

definition noMimeTypes :: "string \<Rightarrow> string" where
  "noMimeTypes ext = []"

definition notAllowed :: "stream response" where
  "notAllowed = Response0\<lparr>StatusCode := 405, Request := Some ftpPost\<rparr>"

subsection \<open>Properties\<close>

text \<open>
  What holds for every method other than GET: the adapter returns, with no error and with
  no transfer started, a response of status 405 on which \<open>Body\<close> was never set.
\<close>

lemma FTPTransport_RoundTrip_not_GET:
  "Method req \<noteq> ''GET'' \<Longrightarrow>
     \<exists>resp. FTPTransport_RoundTrip ftp_GetAsync TypeByExtension req = (Inr resp, []) \<and>
       StatusCode resp = 405 \<and> Body resp = None \<and> Request resp = Some req"
  by (simp add: FTPTransport_RoundTrip_def StatusMethodNotAllowed_def Response0_def)

text \<open>
  C8. The claim has the response of a request that is not a GET carry an empty body, one
  that reads as no bytes. The code returns status 405 with no error and no network access,
  but at a POST request the response it returns has a nil \<open>Body\<close>, where the GET
  branch of the same function sets one: there is nothing to read, and the repository's
  own reader of bodies, \<open>responseContent\<close>, panics on it instead of reading zero bytes.
\<close>

theorem FTPTransport_POST_nil_body:
  "fst (FTPTransport_RoundTrip refuseTransfer noMimeTypes ftpPost) = Inr notAllowed \<and>
   snd (FTPTransport_RoundTrip refuseTransfer noMimeTypes ftpPost) = [] \<and>
   StatusCode notAllowed = 405 \<and>
   Body notAllowed = None \<and>
   fst (responseContent toy_NewReader toy_ReadAll notAllowed) = Inl NilDereference"
  by (simp add: FTPTransport_RoundTrip_def ftpPost_def notAllowed_def StatusMethodNotAllowed_def
      Response0_def responseContent_def)

section \<open>Minimal Protocol Client (transport.go, simpleTransport.RoundTrip)\<close>

subsection \<open>Library functions the client calls\<close>

text \<open>\<open>strings.IndexByte\<close>: the index of the first occurrence of \<open>c\<close>, or \<open>-1\<close>.\<close>

fun IndexByte :: "string \<Rightarrow> char \<Rightarrow> int" where
  "IndexByte [] c = -1"
| "IndexByte (x # xs) c =
     (if x = c then 0 else (let i = IndexByte xs c in if i = -1 then -1 else i + 1))"

text \<open>\<open>strings.TrimLeft\<close>: the leading characters that are in the cutset are removed.\<close>

definition TrimLeft :: "string \<Rightarrow> string \<Rightarrow> string" where
  "TrimLeft s cutset = dropWhile (\<lambda>c. c \<in> set cutset) s"

text \<open>
  \<open>strconv.ParseInt(s, 10, 64)\<close>: an optional sign, then one or more decimal digits, and a
  value that fits 64 bits; anything else is a \<open>*strconv.NumError\<close>. \<open>strconv.Atoi\<close> is
  the same function where \<open>int\<close> has 64 bits, and on every string of fewer than ten
  characters elsewhere.
\<close>

definition isDigit :: "char \<Rightarrow> bool" where
  "isDigit c = (48 \<le> (of_char c :: nat) \<and> (of_char c :: nat) \<le> 57)"

fun digitsValue :: "string \<Rightarrow> int \<Rightarrow> int option" where
  "digitsValue [] n = Some n"
| "digitsValue (c # cs) n =
     (if isDigit c then digitsValue cs (n * 10 + (of_char c - 48)) else None)"

definition ParseInt64 :: "string \<Rightarrow> go_error + int" where
  "ParseInt64 s =
     (case s of
        [] \<Rightarrow> Inl (NumError s)
      | c # cs \<Rightarrow>
          let ds = (if c = CHR ''-'' \<or> c = CHR ''+'' then cs else s) in
          if ds = [] then Inl (NumError s)
          else
            (case digitsValue ds 0 of
               None \<Rightarrow> Inl (NumError s)
             | Some n \<Rightarrow>
                 let v = (if c = CHR ''-'' then - n else n) in
                 if v < - (2 ^ 63) \<or> 2 ^ 63 \<le> v then Inl (NumError s) else Inr v))"

definition Atoi :: "string \<Rightarrow> go_error + int" where
  "Atoi s = ParseInt64 s"

text \<open>\<open>net.JoinHostPort\<close>: a host with a colon in it is put in brackets.\<close>

definition JoinHostPort :: "string \<Rightarrow> string \<Rightarrow> string" where
  "JoinHostPort host port =
     (if IndexByte host (CHR '':'') \<ge> 0 then ''['' @ host @ '']:'' @ port
      else host @ '':'' @ port)"

text \<open>
  A connection, as the client sees it: the bytes the peer sends, the error that ends them
  (\<open>None\<close> for \<open>io.EOF\<close>), and whether it has been closed. The buffered reader
  \<open>br\<close> over the connection is the connection with what is still to be read.
\<close>

record conn =
  incoming :: bytes
  read_fault :: "go_error option"
  conn_closed :: bool

definition conn_Close :: "conn \<Rightarrow> conn" where
  "conn_Close c = c\<lparr>conn_closed := True\<rparr>"

text \<open>A read into a buffer of \<open>k\<close> bytes (\<open>k > 0\<close>).\<close>

definition conn_Read :: "conn \<Rightarrow> nat \<Rightarrow> (bytes \<times> go_error option) \<times> conn" where
  "conn_Read c k =
     (if incoming c = [] then
        (([], Some (case read_fault c of None \<Rightarrow> EOF | Some e \<Rightarrow> e)), c)
      else ((take k (incoming c), None), c\<lparr>incoming := drop k (incoming c)\<rparr>))"

text \<open>
  \<open>textproto.Reader.ReadLine\<close>: the bytes up to the next newline, without the newline
  and without a carriage return before it; at the end of the input, what is left, or the
  error when nothing is left.
\<close>

definition ReadLine :: "conn \<Rightarrow> (go_error + string) \<times> conn" where
  "ReadLine c =
     (let bs = incoming c; l = takeWhile (\<lambda>x. x \<noteq> CHR 0x0A) bs in
      if bs = [] then (Inl (case read_fault c of None \<Rightarrow> EOF | Some e \<Rightarrow> e), c)
      else if length l < length bs then
        (Inr (if l \<noteq> [] \<and> last l = CHR 0x0D then butlast l else l),
         c\<lparr>incoming := drop (Suc (length l)) bs\<rparr>)
      else (Inr l, c\<lparr>incoming := []\<rparr>))"

text \<open>
  The rest of the library is taken as given: \<open>net.SplitHostPort\<close>, the dialer,
  \<open>Request.Write\<close>, \<open>http.ParseHTTPVersion\<close> and
  \<open>textproto.Reader.ReadMIMEHeader\<close>.
\<close>

record lib =
  SplitHostPort :: "string \<Rightarrow> go_error + string \<times> string"
  Dial :: "string \<Rightarrow> go_error + conn"
  Request_Write :: "request \<Rightarrow> conn \<Rightarrow> go_error option"
  ParseHTTPVersion :: "string \<Rightarrow> int \<times> int \<times> bool"
  ReadMIMEHeader :: "conn \<Rightarrow> (header \<times> go_error option) \<times> conn"

subsection \<open>The body: an \<open>io.LimitedReader\<close> over the connection\<close>

text \<open>
  The body of the response is \<open>struct{io.Reader; io.Closer}\<close> with the reader
  \<open>&io.LimitedReader{br, resp.ContentLength}\<close> and the closer \<open>conn\<close>: \<open>R\<close> is
  the connection behind both, \<open>N\<close> the bytes the limited reader still allows.
\<close>

record limited_body =
  R :: conn
  N :: int

definition body_Close :: "limited_body \<Rightarrow> limited_body" where
  "body_Close b = b\<lparr>R := conn_Close (R b)\<rparr>"

text \<open>\<open>io.LimitedReader.Read\<close> into a buffer of \<open>k\<close> bytes.\<close>

definition LimitedReader_Read ::
  "limited_body \<Rightarrow> nat \<Rightarrow> (bytes \<times> go_error option) \<times> limited_body" where
  "LimitedReader_Read l k =
     (if N l \<le> 0 then (([], Some EOF), l)
      else
        let k = (if int k > N l then nat (N l) else k) in
        (case conn_Read (R l) k of
           ((p, err), r) \<Rightarrow> ((p, err), l\<lparr>R := r, N := N l - int (length p)\<rparr>)))"

text \<open>
  \<open>ioutil.ReadAll\<close> of the body: reads of \<open>Suc k\<close> bytes until one reports an error,
  \<open>io.EOF\<close> turned into no error.
\<close>

function body_ReadAll ::
  "nat \<Rightarrow> limited_body \<Rightarrow> bytes \<Rightarrow> (bytes \<times> go_error option) \<times> limited_body" where
  "body_ReadAll k l b =
     (let res = LimitedReader_Read l (Suc k); p = fst (fst res); err = snd (fst res) in
      if err \<noteq> None then ((b @ p, if err = Some EOF then None else err), snd res)
      else body_ReadAll k (snd res) (b @ p))"
  by pat_completeness auto
termination
proof (relation "measure (\<lambda>(k, l, b). length (incoming (R l)))")
  show "wf (measure (\<lambda>(k, l, b). length (incoming (R l))))"
    by simp
next
  fix k l res err and b p :: bytes
  assume "res = LimitedReader_Read l (Suc k)" "err = snd (fst res)" "\<not> err \<noteq> None"
  then show "((k, snd res, b @ p), k, l, b) \<in> measure (\<lambda>(k, l, b). length (incoming (R l)))"
    by (auto simp: LimitedReader_Read_def conn_Read_def Let_def split: if_splits)
qed

declare body_ReadAll.simps [simp del]

subsection \<open>The round trip\<close>

text \<open>Lines 220 to 236: the protocol, the status text and the status code of the first line.\<close>

definition statusLine :: "string \<Rightarrow> 'b response \<Rightarrow> go_error + 'b response" where
  "statusLine line resp =
     (let i = IndexByte line (CHR '' '') in
      if i = -1 then Inl (MalformedResponse line)
      else
        let resp = resp\<lparr>Proto := take (nat i) line,
                        Status := TrimLeft (drop (nat (i + 1)) line) '' ''\<rparr>;
            j = IndexByte (Status resp) (CHR '' '');
            statusCode = (if j \<noteq> -1 then take (nat j) (Status resp) else Status resp)
        in
          if length statusCode \<noteq> 3 then Inl (MalformedStatusCode statusCode)
          else
            (case Atoi statusCode of
               Inl err \<Rightarrow> Inl (MalformedStatusCode statusCode)
             | Inr n \<Rightarrow>
                 if n < 0 then Inl (MalformedStatusCode statusCode)
                 else Inr (resp\<lparr>StatusCode := n\<rparr>)))"

text \<open>Lines 186 to 204: the checks of the request, the dial and the write.\<close>

definition connect :: "lib \<Rightarrow> request \<Rightarrow> go_error + conn" where
  "connect L req =
     (if Method req \<noteq> ''GET'' then Inl (MethodNotSupported (Method req))
      else if Scheme (URL req) \<noteq> ''http'' then Inl (SchemeNotSupported (Scheme (URL req)))
      else
        let host = url_Host (URL req);
            host = (case SplitHostPort L host of
                      Inl err \<Rightarrow> JoinHostPort host ''80''
                    | Inr _ \<Rightarrow> host)
        in
          (case Dial L host of
             Inl err \<Rightarrow> Inl (ErrorConnecting host err)
           | Inr conn \<Rightarrow>
               (case Request_Write L req conn of
                  Some err \<Rightarrow> Inl (ErrorSendingRequest (URL req) err)
                | None \<Rightarrow> Inr conn)))"

text \<open>
  Lines 206 to 250: the head of the response. The result is the response with its
  headers as they were read, and the reader \<open>br\<close> at the first byte after the head.
\<close>

definition readHead :: "request \<Rightarrow> lib \<Rightarrow> conn \<Rightarrow> go_error + limited_body response \<times> conn" where
  "readHead req L conn =
     (let resp = Response0\<lparr>Request := Some req\<rparr> in
      case ReadLine conn of
        (Inl err, br) \<Rightarrow> Inl (if err = EOF then ErrUnexpectedEOF else err)
      | (Inr line, br) \<Rightarrow>
          (case statusLine line resp of
             Inl err \<Rightarrow> Inl err
           | Inr resp \<Rightarrow>
               (case ParseHTTPVersion L (Proto resp) of
                  (major, minor, ok) \<Rightarrow>
                    if \<not> ok then Inl (MalformedVersion (Proto resp))
                    else
                      let resp = resp\<lparr>ProtoMajor := major, ProtoMinor := minor\<rparr> in
                      (case ReadMIMEHeader L br of
                         ((mimeHeader, Some err), br) \<Rightarrow>
                           Inl (if err = EOF then ErrUnexpectedEOF else err)
                       | ((mimeHeader, None), br) \<Rightarrow>
                           Inr (resp\<lparr>Header := mimeHeader\<rparr>, br)))))"

text \<open>Lines 252 to 269: the content length, the headers removed, the body.\<close>

definition attachBody :: "limited_body response \<Rightarrow> conn \<Rightarrow> go_error + limited_body response" where
  "attachBody resp br =
     (let cl = Header_Get (Header resp) ''Content-Length'' in
      case (if cl \<noteq> [] then
              (case ParseInt64 cl of
                 Inl err \<Rightarrow> Inl (InvalidContentLength cl)
               | Inr n \<Rightarrow> Inr (resp\<lparr>ContentLength := n\<rparr>))
            else Inr resp) of
        Inl err \<Rightarrow> Inl err
      | Inr resp \<Rightarrow>
          let resp = resp\<lparr>Header := Header_Del (Header resp) ''Content-Length''\<rparr>;
              resp = resp\<lparr>Header := Header_Del (Header resp) ''Trailer''\<rparr>;
              body = \<lparr>R = br, N = ContentLength resp\<rparr>
          in Inr (resp\<lparr>Body := Some body\<rparr>))"

definition simpleTransport_RoundTrip :: "lib \<Rightarrow> request \<Rightarrow> go_error + limited_body response" where
  "simpleTransport_RoundTrip L req =
     (case connect L req of
        Inl err \<Rightarrow> Inl err
      | Inr conn \<Rightarrow>
          (case readHead req L conn of
             Inl err \<Rightarrow> Inl err
           | Inr (resp, br) \<Rightarrow> attachBody resp br))"


subsection \<open>The status line in the spec's words\<close>

text \<open>
  The status text is what follows the first space of the line, without its leading
  spaces; the token the status code is read from is the status text up to its first
  space. A token parses as a non-negative integer when \<open>Atoi\<close> accepts it with a value
  that is not negative.
\<close>

definition statusText :: "string \<Rightarrow> string" where
  "statusText line = dropWhile (\<lambda>c. c = CHR '' '') (tl (dropWhile (\<lambda>c. c \<noteq> CHR '' '') line))"

definition statusToken :: "string \<Rightarrow> string" where
  "statusToken line = takeWhile (\<lambda>c. c \<noteq> CHR '' '') (statusText line)"

definition parsesNonNegative :: "string \<Rightarrow> bool" where
  "parsesNonNegative tok = (case Atoi tok of Inl _ \<Rightarrow> False | Inr n \<Rightarrow> 0 \<le> n)"

subsection \<open>Fixtures\<close>

text \<open>
  A peer that answers \<open>HTTP/1.1 200 OK\<close>, then the text of a header block, then the
  bytes of a body. \<open>cannedMIME\<close> is the header parser's answer on exactly that header
  block; \<open>wireLib\<close> puts the peer behind the address \<open>example.org:80\<close>.
\<close>

definition CRLF :: string where
  "CRLF = [CHR 0x0D, CHR 0x0A]"

definition cannedMIME :: "bytes \<Rightarrow> header \<Rightarrow> conn \<Rightarrow> (header \<times> go_error option) \<times> conn" where
  "cannedMIME headText h c =
     (if take (length headText) (incoming c) = headText
      then ((h, None), c\<lparr>incoming := drop (length headText) (incoming c)\<rparr>)
      else ((Map.empty, Some (LibError ''textproto.ProtocolError'' ''malformed MIME header line'')), c))"

definition wireConn :: "bytes \<Rightarrow> bytes \<Rightarrow> conn" where
  "wireConn headText rest =
     \<lparr>incoming = ''HTTP/1.1 200 OK'' @ CRLF @ headText @ rest, read_fault = None, conn_closed = False\<rparr>"

definition wireLib :: "bytes \<Rightarrow> header \<Rightarrow> bytes \<Rightarrow> lib" where
  "wireLib headText h rest =
     \<lparr>SplitHostPort = (\<lambda>host. Inl (LibError ''*net.AddrError'' ''missing port in address'')),
      Dial = (\<lambda>host. if host = ''example.org:80''
                then Inr (wireConn headText rest)
                else Inl (LibError ''*net.OpError'' ''no such host'')),
      Request_Write = (\<lambda>req c. None),
      ParseHTTPVersion = (\<lambda>v. if v = ''HTTP/1.1'' then (1, 1, True) else (0, 0, False)),
      ReadMIMEHeader = cannedMIME headText h\<rparr>"

definition getReq :: request where
  "getReq = \<lparr>Method = ''GET'',
     URL = \<lparr>Scheme = ''http'', url_Host = ''example.org'', Path = ''/index.html''\<rparr>,
     Host = ''example.org''\<rparr>"

definition restConn :: "bytes \<Rightarrow> conn" where
  "restConn rest = \<lparr>incoming = rest, read_fault = None, conn_closed = False\<rparr>"

definition lengthFive :: lib where
  "lengthFive = wireLib (''Content-Length: 5'' @ CRLF @ CRLF) [''Content-Length'' \<mapsto> [''5'']] ''hello world''"

definition lengthAbsent :: lib where
  "lengthAbsent = wireLib CRLF Map.empty ''hello''"

definition lengthNegative :: lib where
  "lengthNegative = wireLib (''Content-Length: -5'' @ CRLF @ CRLF) [''Content-Length'' \<mapsto> [''-5'']] ''hello''"

text \<open>A peer whose first line has a status code of one digit.\<close>

definition shortStatus :: conn where
  "shortStatus = \<lparr>incoming = ''HTTP/1.1 2 OK'' @ CRLF @ CRLF, read_fault = None, conn_closed = False\<rparr>"

definition shortStatusLib :: lib where
  "shortStatusLib = (wireLib [] Map.empty [])\<lparr>Dial := (\<lambda>host. Inr shortStatus)\<rparr>"

subsection \<open>Lemmas\<close>

lemma IndexByte_notin: "c \<notin> set xs \<Longrightarrow> IndexByte xs c = -1"
  by (induction xs) auto

lemma IndexByte_in: "c \<in> set xs \<Longrightarrow> IndexByte xs c = int (length (takeWhile (\<lambda>x. x \<noteq> c) xs))"
proof (induction xs)
  case Nil
  then show ?case by simp
next
  case (Cons x xs)
  show ?case
  proof (cases "x = c")
    case True
    then show ?thesis by simp
  next
    case False
    with Cons.prems have "c \<in> set xs" by simp
    from Cons.IH[OF this] False show ?thesis by (simp add: Let_def)
  qed
qed

lemma take_IndexByte: "c \<in> set xs \<Longrightarrow> take (nat (IndexByte xs c)) xs = takeWhile (\<lambda>x. x \<noteq> c) xs"
  using takeWhile_eq_take[of "\<lambda>x. x \<noteq> c" xs] by (simp add: IndexByte_in)

lemma drop_IndexByte:
  "c \<in> set xs \<Longrightarrow> drop (nat (IndexByte xs c + 1)) xs = tl (dropWhile (\<lambda>x. x \<noteq> c) xs)"
  using dropWhile_eq_drop[of "\<lambda>x. x \<noteq> c" xs]
  by (simp add: IndexByte_in nat_add_distrib tl_drop drop_Suc)

lemma statusLine_alt:
  "statusLine line resp =
     (if CHR '' '' \<notin> set line then Inl (MalformedResponse line)
      else if length (statusToken line) \<noteq> 3 \<or> \<not> parsesNonNegative (statusToken line)
           then Inl (MalformedStatusCode (statusToken line))
      else Inr (resp\<lparr>Proto := takeWhile (\<lambda>c. c \<noteq> CHR '' '') line, Status := statusText line,
                   StatusCode := (case Atoi (statusToken line) of Inr n \<Rightarrow> n | Inl _ \<Rightarrow> 0)\<rparr>))"
proof (cases "CHR '' '' \<in> set line")
  case False
  then show ?thesis by (simp add: statusLine_def IndexByte_notin)
next
  case True
  have st: "TrimLeft (drop (nat (IndexByte line (CHR '' '') + 1)) line) '' '' = statusText line"
    using True by (simp add: drop_IndexByte TrimLeft_def statusText_def)
  have i: "IndexByte line (CHR '' '') \<noteq> -1" using True by (simp add: IndexByte_in)
  show ?thesis
  proof (cases "CHR '' '' \<in> set (statusText line)")
    case sp: True
    then have j: "IndexByte (statusText line) (CHR '' '') \<noteq> -1" by (simp add: IndexByte_in)
    have tok: "take (nat (IndexByte (statusText line) (CHR '' ''))) (statusText line) = statusToken line"
      using sp by (simp add: take_IndexByte statusToken_def)
    show ?thesis
      using True i j
      by (simp add: statusLine_def Let_def st tok take_IndexByte parsesNonNegative_def
          split: sum.splits)
  next
    case nsp: False
    then have j: "IndexByte (statusText line) (CHR '' '') = -1" by (simp add: IndexByte_notin)
    have tw: "takeWhile (\<lambda>c. c \<noteq> CHR '' '') (statusText line) = statusText line"
      using nsp by (subst takeWhile_eq_all_conv) auto
    have tok: "statusText line = statusToken line"
      unfolding statusToken_def tw by (rule refl)
    show ?thesis
      using True i
      apply (simp add: statusLine_def Let_def st j take_IndexByte)
      apply (simp add: tok[symmetric] parsesNonNegative_def split: sum.splits)
      done
  qed
qed

lemma take_take_drop:
  "m \<le> n \<Longrightarrow> take m xs @ take (n - min m (length xs)) (drop m xs) = take n xs"
proof (cases "m \<le> length xs")
  case True
  assume "m \<le> n"
  then obtain d where n: "n = m + d" using le_Suc_ex by blast
  from True show ?thesis by (simp add: n take_add min_def)
next
  case False
  assume "m \<le> n"
  with False show ?thesis by simp
qed

lemma body_ReadAll_yields:
  "fst (fst (body_ReadAll k l b)) = b @ take (nat (N l)) (incoming (R l))"
proof (induction k l b rule: body_ReadAll.induct)
  case (1 k l b)
  let ?res = "LimitedReader_Read l (Suc k)"
  let ?m = "if int (Suc k) > N l then nat (N l) else Suc k"
  show ?case
  proof (cases "N l \<le> 0 \<or> incoming (R l) = []")
    case True
    then have "snd (fst ?res) \<noteq> None" "fst (fst ?res) = []"
      by (auto simp: LimitedReader_Read_def conn_Read_def Let_def)
    with True show ?thesis
      by (subst body_ReadAll.simps) (auto simp: Let_def)
  next
    case False
    then have pos: "0 < N l" and ne: "incoming (R l) \<noteq> []" by auto
    have m: "?m \<le> nat (N l)" using pos by auto
    have e: "snd (fst ?res) = None" and p: "fst (fst ?res) = take ?m (incoming (R l))"
      and r: "incoming (R (snd ?res)) = drop ?m (incoming (R l))"
      and n: "N (snd ?res) = N l - int (min ?m (length (incoming (R l))))"
      using pos ne by (auto simp: LimitedReader_Read_def conn_Read_def Let_def min_def)
    have n': "nat (N (snd ?res)) = nat (N l) - min ?m (length (incoming (R l)))"
      unfolding n using pos by (simp add: nat_diff_distrib')
    have "fst (fst (body_ReadAll k l b)) = fst (fst (body_ReadAll k (snd ?res) (b @ fst (fst ?res))))"
      by (subst body_ReadAll.simps) (simp add: Let_def e)
    also have "\<dots> = (b @ fst (fst ?res)) @ take (nat (N (snd ?res))) (incoming (R (snd ?res)))"
      using e by (intro "1.IH"[OF refl refl refl]) simp
    also have "\<dots> = b @ take (nat (N l)) (incoming (R l))"
      unfolding p r n' using take_take_drop[OF m, of "incoming (R l)"] by simp
    finally show ?thesis .
  qed
qed

lemma connect_wire:
  "connect (wireLib headText h rest) getReq = Inr (wireConn headText rest)"
  by (simp add: connect_def wireLib_def getReq_def JoinHostPort_def)

lemma readHead_wire:
  "readHead getReq (wireLib headText h rest) (wireConn headText rest) =
   Inr (Response0\<lparr>Request := Some getReq, Proto := ''HTTP/1.1'', Status := ''200 OK'',
          StatusCode := 200, ProtoMajor := 1, ProtoMinor := 1, Header := h\<rparr>, restConn rest)"
  by (simp add: readHead_def ReadLine_def CRLF_def statusLine_def TrimLeft_def Atoi_def
      ParseInt64_def isDigit_def wireLib_def wireConn_def cannedMIME_def restConn_def Response0_def)

lemma statusLine_ContentLength:
  "statusLine line r = Inr r' \<Longrightarrow> ContentLength r' = ContentLength r"
  by (auto simp: statusLine_alt split: if_splits)

lemma readHead_fields:
  assumes "readHead req L conn = Inr (resp1, br)"
  shows "ContentLength resp1 = 0"
proof -
  obtain line br0 where rl: "ReadLine conn = (Inr line, br0)"
    using assms by (auto simp: readHead_def Let_def split: prod.splits sum.splits)
  obtain r1 where sl: "statusLine line (Response0\<lparr>Request := Some req\<rparr>) = Inr (r1 :: limited_body response)"
    using assms rl by (auto simp: readHead_def Let_def split: prod.splits sum.splits)
  have c1: "ContentLength r1 = 0"
    using statusLine_ContentLength[OF sl] by (simp add: Response0_def)
  from assms rl sl have "\<exists>major minor h. resp1 = r1\<lparr>ProtoMajor := major, ProtoMinor := minor, Header := h\<rparr>"
    by (auto simp: readHead_def Let_def split: prod.splits sum.splits if_splits option.splits)
  with c1 show ?thesis by auto
qed

lemma body_ReadAll_exhausted: "N l \<le> 0 \<Longrightarrow> body_ReadAll k l b = ((b, None), l)"
  by (subst body_ReadAll.simps) (simp add: LimitedReader_Read_def Let_def)

lemma attachBody_absent:
  "Header_Get (Header resp1) ''Content-Length'' = [] \<Longrightarrow>
   attachBody resp1 br =
     Inr (resp1\<lparr>Header := Header_Del (Header_Del (Header resp1) ''Content-Length'') ''Trailer'',
               Body := Some \<lparr>R = br, N = ContentLength resp1\<rparr>\<rparr>)"
  by (simp add: attachBody_def Let_def)

lemma attachBody_present:
  "Header_Get (Header resp1) ''Content-Length'' \<noteq> [] \<Longrightarrow>
   ParseInt64 (Header_Get (Header resp1) ''Content-Length'') = Inr n \<Longrightarrow>
   attachBody resp1 br =
     Inr (resp1\<lparr>ContentLength := n,
               Header := Header_Del (Header_Del (Header resp1) ''Content-Length'') ''Trailer'',
               Body := Some \<lparr>R = br, N = n\<rparr>\<rparr>)"
  by (simp add: attachBody_def Let_def)

lemma ParseInt64_Nil: "ParseInt64 [] = Inl (NumError [])"
  by (simp add: ParseInt64_def)

lemma RoundTrip_statusLine_error:
  assumes "connect L req = Inr conn" and "fst (ReadLine conn) = Inr line"
    and "statusLine line (Response0\<lparr>Request := Some req\<rparr> :: limited_body response) = Inl e"
  shows "simpleTransport_RoundTrip L req = Inl e"
  using assms
  by (cases "ReadLine conn") (simp add: simpleTransport_RoundTrip_def readHead_def Let_def)

lemma RoundTrip_after_statusLine:
  assumes c: "connect L req = Inr conn" and l: "fst (ReadLine conn) = Inr line"
    and s: "statusLine line (Response0\<lparr>Request := Some req\<rparr> :: limited_body response) = Inr resp1"
    and lib: "\<forall>c x. snd (fst (ReadMIMEHeader L c)) \<noteq> Some (MalformedStatusCode x)"
  shows "simpleTransport_RoundTrip L req \<noteq> Inl (MalformedStatusCode x)"
proof -
  obtain br where rl: "ReadLine conn = (Inr line, br)"
    using l by (cases "ReadLine conn") auto
  obtain major minor ok where v: "ParseHTTPVersion L (Proto resp1) = (major, minor, ok)"
    by (cases "ParseHTTPVersion L (Proto resp1)") auto
  obtain h err br2 where m: "ReadMIMEHeader L br = ((h, err), br2)"
    by (cases "ReadMIMEHeader L br") auto
  have e: "err \<noteq> Some (MalformedStatusCode x)"
    using lib[rule_format, of br x] by (simp add: m)
  show ?thesis
  proof (cases ok)
    case False
    then show ?thesis
      by (simp add: simpleTransport_RoundTrip_def c readHead_def rl s v Let_def)
  next
    case True
    show ?thesis
    proof (cases err)
      case (Some e')
      with e True show ?thesis
        by (simp add: simpleTransport_RoundTrip_def c readHead_def rl s v m Let_def)
    next
      case None
      with True show ?thesis
        by (simp add: simpleTransport_RoundTrip_def c readHead_def rl s v m Let_def attachBody_def
            split: sum.splits)
    qed
  qed
qed

lemma shortStatusLib_errors:
  "\<forall>c x. snd (fst (ReadMIMEHeader shortStatusLib c)) \<noteq> Some (MalformedStatusCode x)"
  by (simp add: shortStatusLib_def wireLib_def cannedMIME_def)

lemma wireLib_errors:
  "\<forall>c x. snd (fst (ReadMIMEHeader (wireLib headText h rest) c)) \<noteq> Some (MalformedStatusCode x)"
  by (simp add: wireLib_def cannedMIME_def)

lemma ReadLine_wire: "fst (ReadLine (wireConn headText rest)) = Inr ''HTTP/1.1 200 OK''"
  by (simp add: ReadLine_def wireConn_def CRLF_def)

lemma connect_shortStatus: "connect shortStatusLib getReq = Inr shortStatus"
  by (simp add: connect_def shortStatusLib_def wireLib_def getReq_def)

lemma ReadLine_shortStatus: "fst (ReadLine shortStatus) = Inr ''HTTP/1.1 2 OK''"
  by (simp add: ReadLine_def shortStatus_def CRLF_def)

subsection \<open>Properties\<close>

text \<open>
  C5. The first line yields a malformed-status-code error exactly when it has a status
  text whose first space-delimited token is not three characters long or does not parse as
  a non-negative base-10 integer; the error carries that token. So does the client: a
  round trip that has connected and read its first line fails with a malformed-status-code
  error exactly then, and with that token (the header parser of the library being one
  that does not itself return this error of the client's). The line
  \<open>HTTP/1.1 2 OK\<close> is rejected so, and \<open>HTTP/1.1 200 OK\<close> gives status code 200.
\<close>

theorem statusLine_malformed:
  "(statusLine line resp = Inl (MalformedStatusCode c) \<longleftrightarrow>
      CHR '' '' \<in> set line \<and> c = statusToken line \<and>
      (length c \<noteq> 3 \<or> \<not> parsesNonNegative c)) \<and>
   (connect L req = Inr conn \<and> fst (ReadLine conn) = Inr line \<and> CHR '' '' \<in> set line \<and>
    (length (statusToken line) \<noteq> 3 \<or> \<not> parsesNonNegative (statusToken line)) \<longrightarrow>
      simpleTransport_RoundTrip L req = Inl (MalformedStatusCode (statusToken line))) \<and>
   (connect L req = Inr conn \<and> fst (ReadLine conn) = Inr line \<and>
    (\<forall>br x. snd (fst (ReadMIMEHeader L br)) \<noteq> Some (MalformedStatusCode x)) \<longrightarrow>
      (simpleTransport_RoundTrip L req = Inl (MalformedStatusCode c) \<longleftrightarrow>
         CHR '' '' \<in> set line \<and> c = statusToken line \<and>
         (length c \<noteq> 3 \<or> \<not> parsesNonNegative c))) \<and>
   statusLine ''HTTP/1.1 2 OK'' resp = Inl (MalformedStatusCode ''2'') \<and>
   map_sum id StatusCode (statusLine ''HTTP/1.1 200 OK'' resp) = Inr 200"
proof -
  have helper: "statusLine line r = Inl (MalformedStatusCode c) \<longleftrightarrow>
      CHR '' '' \<in> set line \<and> c = statusToken line \<and>
      (length c \<noteq> 3 \<or> \<not> parsesNonNegative c)" for r :: "'x response"
    unfolding statusLine_alt by auto
  have two: "statusLine ''HTTP/1.1 2 OK'' resp = Inl (MalformedStatusCode ''2'')"
    by (simp add: statusLine_def TrimLeft_def)
  have ok: "map_sum id StatusCode (statusLine ''HTTP/1.1 200 OK'' resp) = Inr 200"
    by (simp add: statusLine_def TrimLeft_def Atoi_def ParseInt64_def isDigit_def)
  have client: "simpleTransport_RoundTrip L req = Inl (MalformedStatusCode c) \<longleftrightarrow>
         CHR '' '' \<in> set line \<and> c = statusToken line \<and>
         (length c \<noteq> 3 \<or> \<not> parsesNonNegative c)"
    if a: "connect L req = Inr conn" "fst (ReadLine conn) = Inr line"
      "\<forall>c x. snd (fst (ReadMIMEHeader L c)) \<noteq> Some (MalformedStatusCode x)"
  proof (cases "statusLine line (Response0\<lparr>Request := Some req\<rparr> :: limited_body response)")
    case (Inl e)
    from RoundTrip_statusLine_error[OF a(1,2) Inl]
    have "simpleTransport_RoundTrip L req = Inl e" .
    then show ?thesis
      using helper[of "Response0\<lparr>Request := Some req\<rparr> :: limited_body response"] Inl by auto
  next
    case (Inr resp1)
    from RoundTrip_after_statusLine[OF a(1,2) Inr a(3)]
    have "simpleTransport_RoundTrip L req \<noteq> Inl (MalformedStatusCode c)" .
    then show ?thesis
      using helper[of "Response0\<lparr>Request := Some req\<rparr> :: limited_body response"] Inr by auto
  qed
  have "if": "simpleTransport_RoundTrip L req = Inl (MalformedStatusCode (statusToken line))"
    if a: "connect L req = Inr conn" "fst (ReadLine conn) = Inr line" "CHR '' '' \<in> set line"
      "length (statusToken line) \<noteq> 3 \<or> \<not> parsesNonNegative (statusToken line)"
  proof -
    from a(3,4) have "statusLine line (Response0\<lparr>Request := Some req\<rparr> :: limited_body response)
        = Inl (MalformedStatusCode (statusToken line))"
      unfolding statusLine_alt by auto
    with a show ?thesis
      by (intro RoundTrip_statusLine_error[of L req conn line]) auto
  qed
  from helper[of resp] two ok client "if" show ?thesis
    by blast
qed

theorem statusLine_malformed_witness:
  "statusLine ''HTTP/1.0 404 Not Found'' (Response0 :: limited_body response)
     \<noteq> Inl (MalformedStatusCode ''404'') \<and>
   statusLine ''HTTP/1.1 20x OK'' (Response0 :: limited_body response)
     = Inl (MalformedStatusCode ''20x'') \<and>
   simpleTransport_RoundTrip shortStatusLib getReq = Inl (MalformedStatusCode ''2'') \<and>
   simpleTransport_RoundTrip lengthFive getReq \<noteq> Inl (MalformedStatusCode ''200'')"
proof -
  have t: "statusToken ''HTTP/1.1 2 OK'' = ''2''"
    by (simp add: statusToken_def statusText_def)
  have t2: "statusToken ''HTTP/1.1 200 OK'' = ''200''"
    by (simp add: statusToken_def statusText_def)
  have p: "parsesNonNegative ''200''"
    by (simp add: parsesNonNegative_def Atoi_def ParseInt64_def isDigit_def)
  from statusLine_malformed [of "''HTTP/1.0 404 Not Found''" "Response0 :: limited_body response" "''404''"]
    statusLine_malformed [of "''HTTP/1.1 20x OK''" "Response0 :: limited_body response" "''20x''"]
  have 1: "statusLine ''HTTP/1.0 404 Not Found'' (Response0 :: limited_body response)
     \<noteq> Inl (MalformedStatusCode ''404'') \<and>
   statusLine ''HTTP/1.1 20x OK'' (Response0 :: limited_body response)
     = Inl (MalformedStatusCode ''20x'')"
    by (simp add: statusToken_def statusText_def parsesNonNegative_def Atoi_def ParseInt64_def
        isDigit_def)
  from statusLine_malformed [of "''HTTP/1.1 2 OK''" "Response0 :: limited_body response" "''2''"
      shortStatusLib getReq shortStatus]
  have 2: "simpleTransport_RoundTrip shortStatusLib getReq = Inl (MalformedStatusCode ''2'')"
    using shortStatusLib_errors by (simp add: connect_shortStatus ReadLine_shortStatus t)
  note c5 = connect_wire [of "''Content-Length: 5'' @ CRLF @ CRLF" "[''Content-Length'' \<mapsto> [''5'']]"
      "''hello world''", folded lengthFive_def]
  note e5 = wireLib_errors [of "''Content-Length: 5'' @ CRLF @ CRLF" "[''Content-Length'' \<mapsto> [''5'']]"
      "''hello world''", folded lengthFive_def]
  from statusLine_malformed [of "''HTTP/1.1 200 OK''" "Response0 :: limited_body response" "''200''"
      lengthFive getReq "wireConn (''Content-Length: 5'' @ CRLF @ CRLF) ''hello world''"]
  have 3: "simpleTransport_RoundTrip lengthFive getReq \<noteq> Inl (MalformedStatusCode ''200'')"
    using c5 e5 ReadLine_wire p by (simp add: t2)
  from 1 2 3 show ?thesis by simp
qed

text \<open>
  C4, as the code has it. For a response whose head was read: when \<open>Content-Length\<close> is
  absent (or empty) the content length stays 0 and the body yields no bytes at all; when it
  is present and parses to \<open>n\<close>, the body yields the first \<open>n\<close> of the bytes that
  follow the head, which are exactly \<open>n\<close> bytes when that many follow; and closing the
  body closes the connection.
\<close>

theorem simpleTransport_body:
  assumes "connect L req = Inr conn" and "readHead req L conn = Inr (resp1, br)"
  shows "(Header_Get (Header resp1) ''Content-Length'' = [] \<longrightarrow>
            (\<exists>resp body. simpleTransport_RoundTrip L req = Inr resp \<and> Body resp = Some body \<and>
               R body = br \<and> fst (fst (body_ReadAll k body [])) = [] \<and>
               conn_closed (R (body_Close body)))) \<and>
         (Header_Get (Header resp1) ''Content-Length'' \<noteq> [] \<and>
          ParseInt64 (Header_Get (Header resp1) ''Content-Length'') = Inr n \<longrightarrow>
            (\<exists>resp body. simpleTransport_RoundTrip L req = Inr resp \<and> Body resp = Some body \<and>
               R body = br \<and>
               fst (fst (body_ReadAll k body [])) = take (nat n) (incoming br) \<and>
               (0 \<le> n \<and> nat n \<le> length (incoming br) \<longrightarrow>
                  int (length (fst (fst (body_ReadAll k body [])))) = n) \<and>
               conn_closed (R (body_Close body))))"
proof (intro conjI impI)
  assume a: "Header_Get (Header resp1) ''Content-Length'' = []"
  have rt: "simpleTransport_RoundTrip L req = attachBody resp1 br"
    using assms by (simp add: simpleTransport_RoundTrip_def)
  show "\<exists>resp body. simpleTransport_RoundTrip L req = Inr resp \<and> Body resp = Some body \<and>
               R body = br \<and> fst (fst (body_ReadAll k body [])) = [] \<and>
               conn_closed (R (body_Close body))"
    unfolding rt attachBody_absent[OF a]
    by (simp add: body_ReadAll_yields readHead_fields[OF assms(2)] body_Close_def conn_Close_def)
next
  assume a: "Header_Get (Header resp1) ''Content-Length'' \<noteq> [] \<and>
          ParseInt64 (Header_Get (Header resp1) ''Content-Length'') = Inr n"
  have rt: "simpleTransport_RoundTrip L req = attachBody resp1 br"
    using assms by (simp add: simpleTransport_RoundTrip_def)
  show "\<exists>resp body. simpleTransport_RoundTrip L req = Inr resp \<and> Body resp = Some body \<and>
               R body = br \<and>
               fst (fst (body_ReadAll k body [])) = take (nat n) (incoming br) \<and>
               (0 \<le> n \<and> nat n \<le> length (incoming br) \<longrightarrow>
                  int (length (fst (fst (body_ReadAll k body [])))) = n) \<and>
               conn_closed (R (body_Close body))"
    unfolding rt attachBody_present[OF conjunct1[OF a] conjunct2[OF a]]
    by (simp add: body_ReadAll_yields body_Close_def conn_Close_def)
qed

theorem simpleTransport_body_witness:
  "(\<exists>resp body. simpleTransport_RoundTrip lengthFive getReq = Inr resp \<and> Body resp = Some body \<and>
      fst (fst (body_ReadAll 511 body [])) = ''hello'' \<and> conn_closed (R (body_Close body))) \<and>
   (\<exists>resp body. simpleTransport_RoundTrip lengthAbsent getReq = Inr resp \<and> Body resp = Some body \<and>
      fst (fst (body_ReadAll 511 body [])) = [])"
proof -
  have five: "ParseInt64 ''5'' = Inr 5"
    by (simp add: ParseInt64_def isDigit_def)
  note c5 = connect_wire [of "''Content-Length: 5'' @ CRLF @ CRLF" "[''Content-Length'' \<mapsto> [''5'']]"
      "''hello world''", folded lengthFive_def]
  note r5 = readHead_wire [of "''Content-Length: 5'' @ CRLF @ CRLF" "[''Content-Length'' \<mapsto> [''5'']]"
      "''hello world''", folded lengthFive_def]
  from simpleTransport_body [OF c5 r5, where n = 5 and k = 511]
  have 1: "\<exists>resp body. simpleTransport_RoundTrip lengthFive getReq = Inr resp \<and> Body resp = Some body \<and>
      fst (fst (body_ReadAll 511 body [])) = ''hello'' \<and> conn_closed (R (body_Close body))"
    by (auto simp add: Header_Get_def five restConn_def)
  note c0 = connect_wire [of CRLF Map.empty "''hello''", folded lengthAbsent_def]
  note r0 = readHead_wire [of CRLF Map.empty "''hello''", folded lengthAbsent_def]
  from simpleTransport_body [OF c0 r0, where n = 0 and k = 511]
  have 2: "\<exists>resp body. simpleTransport_RoundTrip lengthAbsent getReq = Inr resp \<and> Body resp = Some body \<and>
      fst (fst (body_ReadAll 511 body [])) = []"
    by (auto simp add: Header_Get_def)
  from 1 2 show ?thesis by blast
qed

text \<open>
  The claim as it is written fails for a response without \<open>Content-Length\<close>: five bytes
  follow the head on the connection, and the body yields none of them.
\<close>

theorem simpleTransport_unlimited_counterexample:
  "map_sum id Body (simpleTransport_RoundTrip lengthAbsent getReq)
     = Inr (Some \<lparr>R = restConn ''hello'', N = 0\<rparr>) \<and>
   incoming (restConn ''hello'') = ''hello'' \<and>
   fst (fst (body_ReadAll 511 \<lparr>R = restConn ''hello'', N = 0\<rparr> [])) = []"
proof -
  note c0 = connect_wire [of CRLF Map.empty "''hello''", folded lengthAbsent_def]
  note r0 = readHead_wire [of CRLF Map.empty "''hello''", folded lengthAbsent_def]
  show ?thesis
    by (simp add: simpleTransport_RoundTrip_def c0 r0 attachBody_def Header_Get_def Response0_def
        body_ReadAll_yields restConn_def)
qed

text \<open>
  C9. A \<open>Content-Length\<close> that parses to a negative number is no error: the round trip
  returns the response, with that content length, and its body is exhausted from the start
  (a read reports \<open>io.EOF\<close> with no bytes, and reading it all gives no bytes and no
  error).
\<close>

theorem simpleTransport_negative_length:
  assumes "connect L req = Inr conn" and "readHead req L conn = Inr (resp1, br)"
    and "ParseInt64 (Header_Get (Header resp1) ''Content-Length'') = Inr n" and "n < 0"
  shows "\<exists>resp body. simpleTransport_RoundTrip L req = Inr resp \<and> ContentLength resp = n \<and>
           Body resp = Some body \<and>
           LimitedReader_Read body (Suc k) = (([], Some EOF), body) \<and>
           body_ReadAll k body [] = (([], None), body)"
proof -
  have ne: "Header_Get (Header resp1) ''Content-Length'' \<noteq> []"
    using assms(3) by (auto simp: ParseInt64_Nil)
  have rt: "simpleTransport_RoundTrip L req = attachBody resp1 br"
    using assms by (simp add: simpleTransport_RoundTrip_def)
  show ?thesis
    unfolding rt attachBody_present[OF ne assms(3)]
    using assms(4) by (simp add: body_ReadAll_exhausted LimitedReader_Read_def)
qed

theorem simpleTransport_negative_length_witness:
  "\<exists>resp body. simpleTransport_RoundTrip lengthNegative getReq = Inr resp \<and>
     ContentLength resp = - 5 \<and> Body resp = Some body \<and>
     body_ReadAll 511 body [] = (([], None), body)"
proof -
  have neg: "ParseInt64 ''-5'' = Inr (- 5)"
    by (simp add: ParseInt64_def isDigit_def)
  note c = connect_wire [of "''Content-Length: -5'' @ CRLF @ CRLF" "[''Content-Length'' \<mapsto> [''-5'']]"
      "''hello''", folded lengthNegative_def]
  note r = readHead_wire [of "''Content-Length: -5'' @ CRLF @ CRLF" "[''Content-Length'' \<mapsto> [''-5'']]"
      "''hello''", folded lengthNegative_def]
  have "0 > (- 5 :: int)" by simp
  from simpleTransport_negative_length [OF c r _ this, where k = 511] show ?thesis
    by (auto simp add: Header_Get_def neg)
qed


section \<open>Certificate-Substitution Detector (transport.go, hardValidationTransport)\<close>

text \<open>
  \<open>x509.CertPool\<close>: the certificates added, one entry for every distinct encoding.
  A nil pool pointer is \<open>None\<close>; nil \<open>Roots\<close> means the system's default roots.
\<close>

type_synonym CertPool = "certificate list"

definition NewCertPool :: CertPool where
  "NewCertPool = []"

definition AddCert :: "CertPool \<Rightarrow> certificate \<Rightarrow> CertPool" where
  "AddCert pool cert = (if Raw cert \<in> Raw ` set pool then pool else pool @ [cert])"

record VerifyOptions =
  Intermediates :: "CertPool option"
  DNSName :: string
  Roots :: "CertPool option"

text \<open>
  \<open>reflect.TypeOf\<close> of an error held in an interface: nil for the nil interface,
  otherwise the dynamic type of the value. \<open>sameType\<close> is the source's function.
\<close>

fun dynType :: "go_error \<Rightarrow> string" where
  "dynType (LibError ty txt) = ty"
| "dynType (NumError s) = ''*strconv.NumError''"
| "dynType e = ''*errors.errorString''"

definition TypeOf :: "go_error option \<Rightarrow> string option" where
  "TypeOf a = map_option dynType a"

definition sameType :: "go_error option \<Rightarrow> go_error option \<Rightarrow> bool" where
  "sameType a b = (TypeOf a = TypeOf b)"

record hardValidationTransport =
  rt :: "request \<Rightarrow> stream response option \<times> go_error option"
  originalCertificates :: "certificate list"
  originalServerName :: string
  originalCertPool :: CertPool
  expectedErrDefault :: "go_error option"
  expectedErrOriginal :: "go_error option"

text \<open>
  \<open>newHardValidationTransport\<close>. \<open>Verify\<close> stands for \<open>x509.Certificate.Verify\<close>,
  reduced to the error it returns (\<open>None\<close> for nil). An empty chain panics at
  \<open>certificates[0]\<close>.
\<close>

definition newHardValidationTransport ::
  "(certificate \<Rightarrow> VerifyOptions \<Rightarrow> go_error option) \<Rightarrow>
   (request \<Rightarrow> stream response option \<times> go_error option) \<Rightarrow> string \<Rightarrow> certificate list \<Rightarrow>
   go_panic + hardValidationTransport" where
  "newHardValidationTransport Verify rt0 serverName certificates =
     (let pool = foldl AddCert NewCertPool certificates in
      case certificates of
        [] \<Rightarrow> Inl IndexOutOfRange
      | c0 # _ \<Rightarrow>
          Inr \<lparr>rt = rt0,
               originalCertificates = certificates,
               originalServerName = serverName,
               originalCertPool = pool,
               expectedErrDefault =
                 Verify c0 \<lparr>Intermediates = Some pool, DNSName = serverName, Roots = None\<rparr>,
               expectedErrOriginal =
                 Verify c0 \<lparr>Intermediates = None, DNSName = serverName, Roots = Some pool\<rparr>\<rparr>)"

text \<open>
  What a round trip leaves behind: what it returns (or the panic), the request as the
  caller finds it afterwards, and the options of the verifications it ran, in order (the
  certificate verified is always the new leaf).
\<close>

record round_trip =
  returned :: "go_panic + stream response option \<times> go_error option"
  request_after :: request
  verified :: "VerifyOptions list"

text \<open>Lines 121 to 123: a plaintext request is sent over the encrypted scheme.\<close>

definition upgraded :: "request \<Rightarrow> request" where
  "upgraded req =
     (if Scheme (URL req) = ''http'' then req\<lparr>URL := (URL req)\<lparr>Scheme := ''https''\<rparr>\<rparr> else req)"

text \<open>Lines 177 and 178: the body is closed and the round trip fails.\<close>

definition failClosed :: "stream response \<Rightarrow> go_panic + stream response option \<times> go_error option" where
  "failClosed resp =
     (case Body resp of
        None \<Rightarrow> Inl NilDereference
      | Some body \<Rightarrow> Inr (Some (resp\<lparr>Body := Some (Close body)\<rparr>), Some errCouldNotVerify))"

definition hardValidationTransport_RoundTrip ::
  "(certificate \<Rightarrow> VerifyOptions \<Rightarrow> go_error option) \<Rightarrow> hardValidationTransport \<Rightarrow> request \<Rightarrow>
   round_trip" where
  "hardValidationTransport_RoundTrip Verify t req0 =
     (let req = upgraded req0;
          leave = (\<lambda>r vs. \<lparr>returned = r, request_after = req, verified = vs\<rparr>)
      in
      case rt t req of
        (resp, Some err) \<Rightarrow> leave (Inr (resp, Some err)) []
      | (None, None) \<Rightarrow> leave (Inl NilDereference) []
      | (Some resp, None) \<Rightarrow>
          (case TLS resp of
             None \<Rightarrow> leave (Inl NilDereference) []
           | Some cs \<Rightarrow>
               (case PeerCertificates cs of
                  [] \<Rightarrow> leave (Inl IndexOutOfRange) []
                | serverCert # rest \<Rightarrow>
                    (case originalCertificates t of
                       [] \<Rightarrow> leave (Inl IndexOutOfRange) []
                     | original # _ \<Rightarrow>
                         if RawSubjectPublicKeyInfo serverCert = RawSubjectPublicKeyInfo original
                         then leave (Inr (Some resp, None)) []
                         else
                           let intermediates = foldl AddCert NewCertPool rest;
                               o1 = \<lparr>Intermediates = Some intermediates, DNSName = Host req,
                                     Roots = None\<rparr>;
                               o2 = \<lparr>Intermediates = Some intermediates, DNSName = Host req,
                                     Roots = Some (originalCertPool t)\<rparr>;
                               o3 = \<lparr>Intermediates = Some intermediates,
                                     DNSName = originalServerName t, Roots = None\<rparr>;
                               o4 = \<lparr>Intermediates = Some intermediates,
                                     DNSName = originalServerName t,
                                     Roots = Some (originalCertPool t)\<rparr>
                           in
                           if Verify serverCert o1 = None \<or>
                              sameType (Verify serverCert o1) (expectedErrDefault t)
                           then leave (Inr (Some resp, None)) [o1]
                           else if Verify serverCert o2 = None \<or>
                              sameType (Verify serverCert o2) (expectedErrOriginal t)
                           then leave (Inr (Some resp, None)) [o1, o2]
                           else if Host req \<noteq> originalServerName t then
                             (if Verify serverCert o3 = None \<or>
                                 sameType (Verify serverCert o3) (expectedErrDefault t)
                              then leave (Inr (Some resp, None)) [o1, o2, o3]
                              else if Verify serverCert o4 = None \<or>
                                 sameType (Verify serverCert o4) (expectedErrOriginal t)
                              then leave (Inr (Some resp, None)) [o1, o2, o3, o4]
                              else leave (failClosed resp) [o1, o2, o3, o4])
                           else leave (failClosed resp) [o1, o2]))))"


subsection \<open>Fixtures\<close>

text \<open>
  A server first seen with the self-signed certificate \<open>leafA\<close>, and three later
  leaves: \<open>renewedA\<close> with the same key, \<open>leafB\<close> with another key and a chain to a
  system root, \<open>leafC\<close> with another key and valid for no name. \<open>toyVerify\<close> is a
  verifier that sees them so; \<open>pinnedA chain\<close> is the transport made for \<open>leafA\<close>
  over a wrapped transport whose responses present \<open>chain\<close>.
\<close>

definition leafA :: certificate where
  "leafA = \<lparr>Raw = ''cert-A'', RawSubjectPublicKeyInfo = ''key-A''\<rparr>"

definition leafB :: certificate where
  "leafB = \<lparr>Raw = ''cert-B'', RawSubjectPublicKeyInfo = ''key-B''\<rparr>"

definition leafC :: certificate where
  "leafC = \<lparr>Raw = ''cert-C'', RawSubjectPublicKeyInfo = ''key-C''\<rparr>"

definition renewedA :: certificate where
  "renewedA = \<lparr>Raw = ''cert-A2'', RawSubjectPublicKeyInfo = ''key-A''\<rparr>"

definition UnknownAuthorityError :: go_error where
  "UnknownAuthorityError =
     LibError ''x509.UnknownAuthorityError'' ''x509: certificate signed by unknown authority''"

definition HostnameError :: go_error where
  "HostnameError = LibError ''x509.HostnameError'' ''x509: certificate is not valid for this name''"

definition toyVerify :: "certificate \<Rightarrow> VerifyOptions \<Rightarrow> go_error option" where
  "toyVerify c opts =
     (if Raw c = ''cert-C'' then Some HostnameError
      else case Roots opts of
             None \<Rightarrow> if Raw c = ''cert-B'' then None else Some UnknownAuthorityError
           | Some roots \<Rightarrow> if Raw c \<in> Raw ` set roots then None else Some UnknownAuthorityError)"

definition serving :: "certificate list \<Rightarrow> stream response" where
  "serving chain = Response0
     \<lparr>StatusCode := 200, TLS := Some \<lparr>PeerCertificates = chain\<rparr>,
      Body := Some \<lparr>pending = ''hi'', fault = None, closed = False\<rparr>\<rparr>"

definition serve :: "certificate list \<Rightarrow> request \<Rightarrow> stream response option \<times> go_error option" where
  "serve chain req = (Some (serving chain), None)"

definition httpsReq :: request where
  "httpsReq = \<lparr>Method = ''GET'',
     URL = \<lparr>Scheme = ''https'', url_Host = ''example.org'', Path = ''/''\<rparr>,
     Host = ''example.org''\<rparr>"

definition redirectedReq :: request where
  "redirectedReq = \<lparr>Method = ''GET'',
     URL = \<lparr>Scheme = ''http'', url_Host = ''cdn.example.net'', Path = ''/''\<rparr>,
     Host = ''cdn.example.net''\<rparr>"

definition pinnedA :: "certificate list \<Rightarrow> hardValidationTransport" where
  "pinnedA chain =
     \<lparr>rt = serve chain, originalCertificates = [leafA], originalServerName = ''example.org'',
      originalCertPool = [leafA], expectedErrDefault = Some UnknownAuthorityError,
      expectedErrOriginal = None\<rparr>"

definition hostDefault :: "certificate list \<Rightarrow> VerifyOptions" where
  "hostDefault rest = \<lparr>Intermediates = Some rest, DNSName = ''example.org'', Roots = None\<rparr>"

subsection \<open>Lemmas\<close>

lemma pinnedA_built:
  "newHardValidationTransport toyVerify (serve chain) ''example.org'' [leafA] = Inr (pinnedA chain)"
  by (simp add: newHardValidationTransport_def pinnedA_def toyVerify_def leafA_def AddCert_def
      NewCertPool_def Let_def)

lemma upgraded_https: "upgraded httpsReq = httpsReq"
  by (simp add: upgraded_def httpsReq_def)

lemma Host_redirected: "Host (upgraded redirectedReq) = ''cdn.example.net''"
  by (simp add: upgraded_def redirectedReq_def)

lemma Host_https: "Host httpsReq = ''example.org''"
  by (simp add: httpsReq_def)

lemma pinnedA_fields:
  "rt (pinnedA chain) = serve chain"
  "originalCertificates (pinnedA chain) = leafA # []"
  "originalServerName (pinnedA chain) = ''example.org''"
  "originalCertPool (pinnedA chain) = [leafA]"
  "expectedErrDefault (pinnedA chain) = Some UnknownAuthorityError"
  "expectedErrOriginal (pinnedA chain) = None"
  by (simp_all add: pinnedA_def)

lemma serving_fields:
  "TLS (serving chain) = Some \<lparr>PeerCertificates = chain\<rparr>"
  "Body (serving chain) = Some \<lparr>pending = ''hi'', fault = None, closed = False\<rparr>"
  by (simp_all add: serving_def Response0_def)

lemma serve_https: "rt (pinnedA chain) (upgraded httpsReq) = (Some (serving chain), None)"
  by (simp add: pinnedA_def serve_def)

lemma serve_redirected: "rt (pinnedA chain) (upgraded redirectedReq) = (Some (serving chain), None)"
  by (simp add: pinnedA_def serve_def)

lemma keys_differ:
  "RawSubjectPublicKeyInfo leafB \<noteq> RawSubjectPublicKeyInfo leafA"
  "RawSubjectPublicKeyInfo leafC \<noteq> RawSubjectPublicKeyInfo leafA"
  by (simp_all add: leafA_def leafB_def leafC_def)

lemma toyVerify_leafB: "toyVerify leafB (hostDefault rest) = None"
  by (simp add: toyVerify_def leafB_def hostDefault_def)

lemma toyVerify_leafB_default: "Roots opts = None \<Longrightarrow> toyVerify leafB opts = None"
  by (simp add: toyVerify_def leafB_def)

lemma toyVerify_leafC: "toyVerify leafC opts = Some HostnameError"
  by (simp add: toyVerify_def leafC_def)

lemma types_differ:
  "TypeOf (Some HostnameError) \<noteq> TypeOf (Some UnknownAuthorityError)"
  "TypeOf (Some HostnameError) \<noteq> TypeOf None"
  "TypeOf None \<noteq> TypeOf (Some UnknownAuthorityError)"
  by (simp_all add: TypeOf_def HostnameError_def UnknownAuthorityError_def)

subsection \<open>Properties\<close>

text \<open>
  C1, as the code has it. For a response whose new leaf has another key than the original
  leaf, the round trip accepts at its second check (it returns the response with no error
  after exactly one verification, the one against the default roots with the rest of the
  new chain as intermediates and the request host as name) exactly when that verification
  succeeds or fails with an error of the same category as \<open>expectedErrDefault\<close>, the
  category of an error being its dynamic type. So a verification that newly succeeds is
  accepted at this step; one that fails where the original one succeeded is not.
\<close>

theorem RoundTrip_second_check:
  assumes "rt t (upgraded req) = (Some resp, None)" and "TLS resp = Some cs"
    and "PeerCertificates cs = serverCert # rest"
    and "originalCertificates t = original # others"
    and "RawSubjectPublicKeyInfo serverCert \<noteq> RawSubjectPublicKeyInfo original"
  shows "hardValidationTransport_RoundTrip Verify t req =
           \<lparr>returned = Inr (Some resp, None), request_after = upgraded req,
            verified = [\<lparr>Intermediates = Some (foldl AddCert NewCertPool rest),
                         DNSName = Host (upgraded req), Roots = None\<rparr>]\<rparr>
         \<longleftrightarrow>
         Verify serverCert \<lparr>Intermediates = Some (foldl AddCert NewCertPool rest),
                            DNSName = Host (upgraded req), Roots = None\<rparr> = None \<or>
         TypeOf (Verify serverCert \<lparr>Intermediates = Some (foldl AddCert NewCertPool rest),
                            DNSName = Host (upgraded req), Roots = None\<rparr>)
           = TypeOf (expectedErrDefault t)"
  using assms
  by (simp add: hardValidationTransport_RoundTrip_def Let_def sameType_def)

theorem RoundTrip_second_check_witness:
  "hardValidationTransport_RoundTrip toyVerify (pinnedA [leafB]) httpsReq =
     \<lparr>returned = Inr (Some (serving [leafB]), None), request_after = httpsReq,
      verified = [hostDefault []]\<rparr> \<and>
   hardValidationTransport_RoundTrip toyVerify (pinnedA [leafC]) httpsReq \<noteq>
     \<lparr>returned = Inr (Some (serving [leafC]), None), request_after = httpsReq,
      verified = [hostDefault []]\<rparr>"
proof -
  have 3: "PeerCertificates \<lparr>PeerCertificates = [c]\<rparr> = c # []" for c
    by simp
  have o: "\<lparr>Intermediates = Some (foldl AddCert NewCertPool []),
            DNSName = Host (upgraded httpsReq), Roots = None\<rparr> = hostDefault []"
    by (simp add: hostDefault_def NewCertPool_def upgraded_https Host_https)
  from RoundTrip_second_check [OF serve_https serving_fields(1) 3 pinnedA_fields(2) keys_differ(1),
      of toyVerify]
    RoundTrip_second_check [OF serve_https serving_fields(1) 3 pinnedA_fields(2) keys_differ(2),
      of toyVerify]
  show ?thesis
    unfolding o
    by (simp add: upgraded_https toyVerify_leafB toyVerify_leafC pinnedA_fields types_differ)
qed

text \<open>
  The claim as it is written fails where the original leaf failed default verification and
  the new leaf, with another key, passes it: the categories differ, and the second check
  accepts.
\<close>

theorem RoundTrip_newly_succeeds_counterexample:
  "RawSubjectPublicKeyInfo leafB \<noteq> RawSubjectPublicKeyInfo leafA \<and>
   expectedErrDefault (pinnedA [leafB]) = Some UnknownAuthorityError \<and>
   toyVerify leafB (hostDefault []) = None \<and>
   TypeOf (toyVerify leafB (hostDefault [])) \<noteq> TypeOf (expectedErrDefault (pinnedA [leafB])) \<and>
   hardValidationTransport_RoundTrip toyVerify (pinnedA [leafB]) httpsReq =
     \<lparr>returned = Inr (Some (serving [leafB]), None), request_after = httpsReq,
      verified = [hostDefault []]\<rparr>"
  by (simp add: hardValidationTransport_RoundTrip_def Let_def serve_def serving_fields
      pinnedA_fields keys_differ toyVerify_leafB_default types_differ upgraded_https
      hostDefault_def NewCertPool_def Host_https)

text \<open>
  C2. For a transport built from a non-empty chain, a successful response whose new leaf
  has the public-key bytes of the first certificate of the chain is returned with no
  error, whatever else the new chain holds, and no verification is run.
\<close>

theorem RoundTrip_fast_path:
  assumes "newHardValidationTransport Verify0 rt0 serverName certificates = Inr t"
    and "rt0 (upgraded req) = (Some resp, None)" and "TLS resp = Some cs"
    and "PeerCertificates cs = serverCert # rest"
    and "RawSubjectPublicKeyInfo serverCert = RawSubjectPublicKeyInfo (hd certificates)"
  shows "hardValidationTransport_RoundTrip Verify t req =
           \<lparr>returned = Inr (Some resp, None), request_after = upgraded req, verified = []\<rparr>"
proof -
  from assms(1) obtain c0 cs0 where c: "certificates = c0 # cs0"
    by (cases certificates) (auto simp: newHardValidationTransport_def)
  from assms(1) have t: "rt t = rt0" "originalCertificates t = certificates"
    by (auto simp: newHardValidationTransport_def Let_def c)
  show ?thesis
    using assms(2-5) t c
    by (simp add: hardValidationTransport_RoundTrip_def Let_def)
qed

theorem RoundTrip_fast_path_witness:
  "hardValidationTransport_RoundTrip toyVerify (pinnedA [renewedA, leafC]) httpsReq =
     \<lparr>returned = Inr (Some (serving [renewedA, leafC]), None), request_after = httpsReq,
      verified = []\<rparr>"
proof -
  have 3: "PeerCertificates \<lparr>PeerCertificates = [renewedA, leafC]\<rparr> = renewedA # [leafC]"
    by simp
  have k: "RawSubjectPublicKeyInfo renewedA = RawSubjectPublicKeyInfo (hd [leafA])"
    by (simp add: leafA_def renewedA_def)
  have s: "serve [renewedA, leafC] (upgraded httpsReq) = (Some (serving [renewedA, leafC]), None)"
    by (simp add: serve_def)
  from RoundTrip_fast_path [OF pinnedA_built s serving_fields(1) 3 k, where Verify = toyVerify]
  show ?thesis by (simp add: upgraded_https)
qed

text \<open>
  C3. When the key differs and none of the checks passes (the two against the request host,
  and the two against the pinned server name when the request host is another one), the
  round trip closes the body of the response and returns \<open>errCouldNotVerify\<close>; it does
  not return success.
\<close>

theorem RoundTrip_fails_closed:
  assumes "rt t (upgraded req) = (Some resp, None)" and "TLS resp = Some cs"
    and "PeerCertificates cs = serverCert # rest"
    and "originalCertificates t = original # others"
    and "Body resp = Some body"
    and "RawSubjectPublicKeyInfo serverCert \<noteq> RawSubjectPublicKeyInfo original"
    and "\<not> (Verify serverCert \<lparr>Intermediates = Some (foldl AddCert NewCertPool rest),
                  DNSName = Host (upgraded req), Roots = None\<rparr> = None \<or>
             sameType (Verify serverCert \<lparr>Intermediates = Some (foldl AddCert NewCertPool rest),
                  DNSName = Host (upgraded req), Roots = None\<rparr>) (expectedErrDefault t))"
    and "\<not> (Verify serverCert \<lparr>Intermediates = Some (foldl AddCert NewCertPool rest),
                  DNSName = Host (upgraded req), Roots = Some (originalCertPool t)\<rparr> = None \<or>
             sameType (Verify serverCert \<lparr>Intermediates = Some (foldl AddCert NewCertPool rest),
                  DNSName = Host (upgraded req), Roots = Some (originalCertPool t)\<rparr>)
               (expectedErrOriginal t))"
    and "Host (upgraded req) \<noteq> originalServerName t \<longrightarrow>
           \<not> (Verify serverCert \<lparr>Intermediates = Some (foldl AddCert NewCertPool rest),
                  DNSName = originalServerName t, Roots = None\<rparr> = None \<or>
             sameType (Verify serverCert \<lparr>Intermediates = Some (foldl AddCert NewCertPool rest),
                  DNSName = originalServerName t, Roots = None\<rparr>) (expectedErrDefault t)) \<and>
           \<not> (Verify serverCert \<lparr>Intermediates = Some (foldl AddCert NewCertPool rest),
                  DNSName = originalServerName t, Roots = Some (originalCertPool t)\<rparr> = None \<or>
             sameType (Verify serverCert \<lparr>Intermediates = Some (foldl AddCert NewCertPool rest),
                  DNSName = originalServerName t, Roots = Some (originalCertPool t)\<rparr>)
               (expectedErrOriginal t))"
  shows "returned (hardValidationTransport_RoundTrip Verify t req) =
           Inr (Some (resp\<lparr>Body := Some (Close body)\<rparr>), Some errCouldNotVerify) \<and>
         closed (Close body) \<and>
         (\<forall>r. returned (hardValidationTransport_RoundTrip Verify t req) \<noteq> Inr (r, None))"
  using assms
  by (auto simp add: hardValidationTransport_RoundTrip_def Let_def failClosed_def Close_def)

theorem RoundTrip_fails_closed_witness:
  "returned (hardValidationTransport_RoundTrip toyVerify (pinnedA [leafC]) httpsReq) =
     Inr (Some ((serving [leafC])\<lparr>Body := Some \<lparr>pending = ''hi'', fault = None, closed = True\<rparr>\<rparr>),
          Some errCouldNotVerify) \<and>
   returned (hardValidationTransport_RoundTrip toyVerify (pinnedA [leafC]) redirectedReq) =
     Inr (Some ((serving [leafC])\<lparr>Body := Some \<lparr>pending = ''hi'', fault = None, closed = True\<rparr>\<rparr>),
          Some errCouldNotVerify)"
proof -
  have 3: "PeerCertificates \<lparr>PeerCertificates = [c]\<rparr> = c # []" for c
    by simp
  from RoundTrip_fails_closed [OF serve_https serving_fields(1) 3 pinnedA_fields(2)
      serving_fields(2) keys_differ(2), of toyVerify]
  have a: "returned (hardValidationTransport_RoundTrip toyVerify (pinnedA [leafC]) httpsReq) =
     Inr (Some ((serving [leafC])\<lparr>Body := Some \<lparr>pending = ''hi'', fault = None, closed = True\<rparr>\<rparr>),
          Some errCouldNotVerify)"
    by (simp add: toyVerify_leafC pinnedA_fields upgraded_https Host_https sameType_def
        types_differ Close_def)
  from RoundTrip_fails_closed [OF serve_redirected serving_fields(1) 3 pinnedA_fields(2)
      serving_fields(2) keys_differ(2), of toyVerify]
  have b: "returned (hardValidationTransport_RoundTrip toyVerify (pinnedA [leafC]) redirectedReq) =
     Inr (Some ((serving [leafC])\<lparr>Body := Some \<lparr>pending = ''hi'', fault = None, closed = True\<rparr>\<rparr>),
          Some errCouldNotVerify)"
    by (simp add: toyVerify_leafC pinnedA_fields Host_redirected sameType_def
        types_differ Close_def)
  from a b show ?thesis by simp
qed


section \<open>Character Normalizer (phrase\_scan.go, scanContent)\<close>

text \<open>
  A rune is an \<open>int32\<close>; it is modelled as an integer, no arithmetic being done on it.
  \<open>byte(c)\<close> keeps the low eight bits, which is what \<open>char_of\<close> does.
\<close>

type_synonym rune = int

text \<open>The status a \<open>mahonia.Decoder\<close> reports.\<close>

datatype Status = SUCCESS | INVALID_CHAR | NO_ROOM | STATE_ONLY

text \<open>
  \<open>utf8.EncodeRune\<close>: one to four bytes; a negative rune, a surrogate and a rune beyond
  \<open>U+10FFFF\<close> are encoded as \<open>U+FFFD\<close>.
\<close>

definition encode3 :: "rune \<Rightarrow> bytes" where
  "encode3 r = [char_of (0xE0 + r div 4096), char_of (0x80 + (r div 64) mod 64),
                char_of (0x80 + r mod 64)]"

definition EncodeRune :: "rune \<Rightarrow> bytes" where
  "EncodeRune r =
     (if 0 \<le> r \<and> r \<le> 0x7F then [char_of r]
      else if 0 \<le> r \<and> r \<le> 0x7FF then [char_of (0xC0 + r div 64), char_of (0x80 + r mod 64)]
      else if r < 0 \<or> 0x10FFFF < r \<or> (0xD800 \<le> r \<and> r \<le> 0xDFFF) then encode3 0xFFFD
      else if r \<le> 0xFFFF then encode3 r
      else [char_of (0xF0 + r div 262144), char_of (0x80 + (r div 4096) mod 64),
            char_of (0x80 + (r div 64) mod 64), char_of (0x80 + r mod 64)])"

text \<open>
  The loop of lines 40 to 67. \<open>decode\<close> is the decoder chosen in lines 20 to 30, a
  closure: it is given its state and returns the new one with the rune, the number of
  bytes it took and the status. \<open>wordRune\<close> and the phrase scanner's \<open>scanByte\<close> are
  functions of the repository that are not in these sources; they are parameters. A loop
  that never ends is \<open>None\<close>; \<open>content[size:]\<close> panics when the size \<open>sz\<close> is out
  of range.
\<close>

partial_function (option) scanLoop ::
  "('s \<Rightarrow> bytes \<Rightarrow> (rune \<times> int \<times> Status) \<times> 's) \<Rightarrow> (rune \<Rightarrow> rune) \<Rightarrow> ('p \<Rightarrow> char \<Rightarrow> 'p) \<Rightarrow>
   's \<Rightarrow> bytes \<Rightarrow> rune \<Rightarrow> 'p \<Rightarrow> (go_panic + 'p) option" where
  "scanLoop decode wordRune scanByte st content prevRune ps =
     (if length content > 0 then
        (case decode st content of
           ((c, sz, status), st') \<Rightarrow>
             if sz < 0 \<or> int (length content) < sz then Some (Inl SliceBoundsOutOfRange)
             else
               let content = drop (nat sz) content in
               if status = STATE_ONLY then
                 scanLoop decode wordRune scanByte st' content prevRune ps
               else if status = NO_ROOM then Some (Inr ps)
               else
                 let c = wordRune c in
                 if c = 32 \<and> prevRune = 32 then
                   scanLoop decode wordRune scanByte st' content prevRune ps
                 else if c < 128 then
                   scanLoop decode wordRune scanByte st' content c (scanByte ps (char_of c))
                 else
                   scanLoop decode wordRune scanByte st' content c
                     (foldl scanByte ps (EncodeRune c)))
      else Some (Inr ps))"

text \<open>
  Lines 34 to 69 of \<open>scanContent\<close>: a new phrase scanner is fed a space, then the loop
  runs, then the scanner is fed a space. The result is the scanner as line 69 leaves it
  (the merge of its tally and the scoring that follow do not feed it).
\<close>

definition scanContent ::
  "('s \<Rightarrow> bytes \<Rightarrow> (rune \<times> int \<times> Status) \<times> 's) \<Rightarrow> (rune \<Rightarrow> rune) \<Rightarrow> ('p \<Rightarrow> char \<Rightarrow> 'p) \<Rightarrow>
   'p \<Rightarrow> 's \<Rightarrow> bytes \<Rightarrow> (go_panic + 'p) option" where
  "scanContent decode wordRune scanByte newPhraseScanner st content =
     (let ps = scanByte newPhraseScanner (CHR '' '') in
      case scanLoop decode wordRune scanByte st content 32 ps of
        None \<Rightarrow> None
      | Some (Inl p) \<Rightarrow> Some (Inl p)
      | Some (Inr ps) \<Rightarrow> Some (Inr (scanByte ps (CHR '' ''))))"

text \<open>The phrase scanner that only records the bytes it is fed.\<close>

definition record_scanByte :: "bytes \<Rightarrow> char \<Rightarrow> bytes" where
  "record_scanByte ps b = ps @ [b]"

text \<open>Two separators next to each other somewhere in a byte sequence.\<close>

fun adjacentSeparators :: "bytes \<Rightarrow> bool" where
  "adjacentSeparators (a # b # xs) =
     ((a = CHR '' '' \<and> b = CHR '' '') \<or> adjacentSeparators (b # xs))"
| "adjacentSeparators xs = False"

text \<open>
  A decoder that goes on: on input that is not empty it takes a number of bytes within the
  input, and at least one unless it reports \<open>NO_ROOM\<close>.
\<close>

definition advances :: "('s \<Rightarrow> bytes \<Rightarrow> (rune \<times> int \<times> Status) \<times> 's) \<Rightarrow> bool" where
  "advances decode =
     (\<forall>st p. p \<noteq> [] \<longrightarrow>
        (case decode st p of
           ((c, sz, status), st') \<Rightarrow>
             0 \<le> sz \<and> sz \<le> int (length p) \<and> (status \<noteq> NO_ROOM \<longrightarrow> 1 \<le> sz)))"

text \<open>
  The normalized stream in the spec's words: a separator is dropped when the rune kept
  before it (or the opening separator) is a separator, and every rune kept is re-encoded,
  one byte below 128 and UTF-8 beyond, as lines 59 to 66 do.
\<close>

fun squeeze :: "rune \<Rightarrow> rune list \<Rightarrow> rune list" where
  "squeeze prev [] = []"
| "squeeze prev (c # cs) = (if c = 32 \<and> prev = 32 then squeeze prev cs else c # squeeze c cs)"


definition emit :: "rune \<Rightarrow> bytes" where
  "emit c = (if c < 128 then [char_of c] else EncodeRune c)"


subsection \<open>Fixtures\<close>

text \<open>
  Modelled from the spec: \<open>wordRune\<close>, whose source is not under src/. The spec has it
  fold the case of letters and stand a single separator for whitespace and punctuation;
  digits and the runes beyond ASCII, of which the spec says nothing, are left as they are.
\<close>

definition wordRune_spec :: "rune \<Rightarrow> rune" where
  "wordRune_spec c =
     (if 65 \<le> c \<and> c \<le> 90 then c + 32
      else if (97 \<le> c \<and> c \<le> 122) \<or> (48 \<le> c \<and> c \<le> 57) \<or> 128 \<le> c then c
      else 32)"

text \<open>
  A decoder for US-ASCII text, with no state: one byte is one character, and a byte
  beyond 127 is an invalid character, reported as \<open>U+FFFD\<close>.
\<close>

definition asciiDecode :: "unit \<Rightarrow> bytes \<Rightarrow> (rune \<times> int \<times> Status) \<times> unit" where
  "asciiDecode st p =
     (case p of
        [] \<Rightarrow> ((0, 0, NO_ROOM), st)
      | b # _ \<Rightarrow>
          if (of_char b :: int) < 128 then ((of_char b, 1, SUCCESS), st)
          else ((0xFFFD, 1, INVALID_CHAR), st))"


text \<open>The rune that decoder reads from a byte.\<close>

definition asciiRune :: "char \<Rightarrow> rune" where
  "asciiRune b = (if (of_char b :: int) < 128 then of_char b else 0xFFFD)"

subsection \<open>Lemmas\<close>

lemma adjacentSeparators_snoc:
  "ps \<noteq> [] \<Longrightarrow>
   adjacentSeparators (ps @ [b]) = (adjacentSeparators ps \<or> (last ps = CHR '' '' \<and> b = CHR '' ''))"
  by (induction ps rule: adjacentSeparators.induct) auto

lemma adjacentSeparators_append:
  "ps \<noteq> [] \<Longrightarrow> CHR '' '' \<notin> set xs \<Longrightarrow> adjacentSeparators (ps @ xs) = adjacentSeparators ps"
proof (induction xs rule: rev_induct)
  case Nil
  then show ?case by simp
next
  case (snoc x xs)
  then have "adjacentSeparators ((ps @ xs) @ [x]) = adjacentSeparators (ps @ xs)"
    by (subst adjacentSeparators_snoc) auto
  with snoc show ?case by simp
qed

lemma char_of_space: "(char_of (n :: int) = CHR '' '') = (n mod 256 = 32)"
  by (simp add: char_of_eq_iff take_bit_eq_mod)

lemma low_bits_not_space: "CHR '' '' \<noteq> char_of (0x80 + x mod 64 :: int)"
proof -
  have "0 \<le> x mod 64" "x mod 64 < 64" by simp_all
  then have "(0x80 + x mod 64) mod 256 = 0x80 + x mod 64" by (simp add: mod_pos_pos_trivial)
  then have "(0x80 + x mod 64) mod 256 \<noteq> 32" by simp
  then show ?thesis by (metis char_of_space)
qed

lemma high_bits_not_space:
  fixes c :: int
  assumes "0 \<le> c" "c \<le> m" "0 < d" "32 < b" "b + m div d < 256"
  shows "CHR '' '' \<noteq> char_of (b + c div d)"
proof -
  have 1: "c div d \<le> m div d" using assms(2,3) by (rule zdiv_mono1)
  have 2: "0 \<le> c div d" using assms(1,3) by (simp add: pos_imp_zdiv_nonneg_iff)
  from 1 2 assms have "(b + c div d) mod 256 = b + c div d" by (simp add: mod_pos_pos_trivial)
  with 2 assms have "(b + c div d) mod 256 \<noteq> 32" by simp
  then show ?thesis by (metis char_of_space)
qed

lemma encode3_no_separator:
  assumes "0 \<le> r" "r \<le> 0xFFFF"
  shows "CHR '' '' \<notin> set (encode3 r)"
proof -
  have "CHR '' '' \<noteq> char_of (0xE0 + r div 4096)"
    using assms by (intro high_bits_not_space[where m = "0xFFFF"]) simp_all
  then show ?thesis
    using low_bits_not_space[of r] low_bits_not_space[of "r div 64"]
    by (simp add: encode3_def)
qed

lemma EncodeRune_no_separator:
  assumes "128 \<le> c"
  shows "EncodeRune c \<noteq> [] \<and> CHR '' '' \<notin> set (EncodeRune c)"
proof -
  consider (two) "c \<le> 0x7FF"
    | (bad) "0x7FF < c" "0x10FFFF < c \<or> (0xD800 \<le> c \<and> c \<le> 0xDFFF)"
    | (three) "0x7FF < c" "c \<le> 0xFFFF" "\<not> (0xD800 \<le> c \<and> c \<le> 0xDFFF)"
    | (four) "0xFFFF < c" "c \<le> 0x10FFFF"
    by linarith
  then show ?thesis
  proof cases
    case two
    have "CHR '' '' \<noteq> char_of (0xC0 + c div 64)"
      using assms two by (intro high_bits_not_space[where m = "0x7FF"]) simp_all
    then show ?thesis
      using assms two low_bits_not_space[of c] by (simp add: EncodeRune_def)
  next
    case bad
    have e: "EncodeRune c = encode3 0xFFFD"
      using assms bad by (auto simp: EncodeRune_def)
    show ?thesis
      unfolding e using encode3_no_separator[of "0xFFFD"] by (simp add: encode3_def)
  next
    case three
    have e: "EncodeRune c = encode3 c"
      using assms three by (auto simp: EncodeRune_def)
    show ?thesis
      unfolding e using encode3_no_separator[of c] assms three by (simp add: encode3_def)
  next
    case four
    have e: "EncodeRune c = [char_of (0xF0 + c div 262144), char_of (0x80 + (c div 4096) mod 64),
            char_of (0x80 + (c div 64) mod 64), char_of (0x80 + c mod 64)]"
      using assms four by (auto simp: EncodeRune_def)
    have "CHR '' '' \<noteq> char_of (0xF0 + c div 262144)"
      using assms four by (intro high_bits_not_space[where m = "0x10FFFF"]) simp_all
    then show ?thesis
      unfolding e
      using low_bits_not_space[of c] low_bits_not_space[of "c div 64"]
        low_bits_not_space[of "c div 4096"]
      by simp
  qed
qed

lemma foldl_record_scanByte: "foldl record_scanByte ps xs = ps @ xs"
  by (induction xs arbitrary: ps) (simp_all add: record_scanByte_def)

lemma char_of_space_iff:
  "0 \<le> c \<Longrightarrow> c < 128 \<Longrightarrow> (char_of (c :: int) = CHR '' '') = (c = 32)"
  by (simp add: char_of_space mod_pos_pos_trivial)

lemma scanLoop_shape:
  assumes adv: "advances decode" and nn: "\<forall>c. 0 \<le> wordRune c"
  shows "ps \<noteq> [] \<Longrightarrow> \<not> adjacentSeparators ps \<Longrightarrow> (prev = 32) = (last ps = CHR '' '') \<Longrightarrow>
         \<exists>out. scanLoop decode wordRune record_scanByte st content prev ps = Some (Inr (ps @ out)) \<and>
               \<not> adjacentSeparators (ps @ out)"
proof (induction "length content" arbitrary: content st prev ps rule: less_induct)
  case less
  show ?case
  proof (cases "content = []")
    case True
    with less.prems show ?thesis
      by (subst scanLoop.simps) simp
  next
    case False
    obtain c sz status st' where d: "decode st content = ((c, sz, status), st')"
      by (cases "decode st content") auto
    have "0 \<le> sz \<and> sz \<le> int (length content) \<and> (status \<noteq> NO_ROOM \<longrightarrow> 1 \<le> sz)"
      using adv[unfolded advances_def, rule_format, OF False, of st] by (simp add: d)
    then have sz: "0 \<le> sz" "sz \<le> int (length content)"
      and pos: "status \<noteq> NO_ROOM \<Longrightarrow> 1 \<le> sz"
      by simp_all
    let ?rest = "drop (nat sz) content"
    have shorter: "status \<noteq> NO_ROOM \<Longrightarrow> length ?rest < length content"
      using pos False by auto
    have unfold: "scanLoop decode wordRune record_scanByte st content prev ps =
        (if status = STATE_ONLY then scanLoop decode wordRune record_scanByte st' ?rest prev ps
         else if status = NO_ROOM then Some (Inr ps)
         else if wordRune c = 32 \<and> prev = 32
           then scanLoop decode wordRune record_scanByte st' ?rest prev ps
         else if wordRune c < 128
           then scanLoop decode wordRune record_scanByte st' ?rest (wordRune c)
                  (ps @ [char_of (wordRune c)])
         else scanLoop decode wordRune record_scanByte st' ?rest (wordRune c)
                  (ps @ EncodeRune (wordRune c)))"
      using False sz
      by (subst scanLoop.simps) (simp add: d Let_def foldl_record_scanByte record_scanByte_def)
    consider (state) "status = STATE_ONLY" | (noroom) "status = NO_ROOM"
      | (skip) "status \<noteq> STATE_ONLY" "status \<noteq> NO_ROOM" "wordRune c = 32 \<and> prev = 32"
      | (one) "status \<noteq> STATE_ONLY" "status \<noteq> NO_ROOM" "\<not> (wordRune c = 32 \<and> prev = 32)"
          "wordRune c < 128"
      | (many) "status \<noteq> STATE_ONLY" "status \<noteq> NO_ROOM" "\<not> (wordRune c = 32 \<and> prev = 32)"
          "\<not> wordRune c < 128"
      by blast
    then show ?thesis
    proof cases
      case state
      then have "length ?rest < length content" using shorter by simp
      from less.hyps[OF this less.prems] show ?thesis
        unfolding unfold using state by simp
    next
      case noroom
      with less.prems show ?thesis
        unfolding unfold by simp
    next
      case skip
      then have "length ?rest < length content" using shorter by simp
      from less.hyps[OF this less.prems] show ?thesis
        unfolding unfold using skip by simp
    next
      case one
      let ?b = "char_of (wordRune c)"
      have b: "(?b = CHR '' '') = (wordRune c = 32)"
        using nn one by (intro char_of_space_iff) auto
      have 1: "ps @ [?b] \<noteq> []" by simp
      have 2: "\<not> adjacentSeparators (ps @ [?b])"
        using less.prems one b by (auto simp: adjacentSeparators_snoc)
      have 3: "(wordRune c = 32) = (last (ps @ [?b]) = CHR '' '')"
        using b by simp
      have "length ?rest < length content" using shorter one by simp
      from less.hyps[OF this 1 2 3, of st'] obtain out where
        "scanLoop decode wordRune record_scanByte st' ?rest (wordRune c) (ps @ [?b])
           = Some (Inr ((ps @ [?b]) @ out))" "\<not> adjacentSeparators ((ps @ [?b]) @ out)"
        by blast
      then show ?thesis
        unfolding unfold using one by (intro exI[of _ "?b # out"]) auto
    next
      case many
      let ?bs = "EncodeRune (wordRune c)"
      from many have big: "128 \<le> wordRune c" by simp
      note e = EncodeRune_no_separator[OF big]
      have 1: "ps @ ?bs \<noteq> []" using less.prems by simp
      have 2: "\<not> adjacentSeparators (ps @ ?bs)"
        using less.prems e by (simp add: adjacentSeparators_append)
      have "last (ps @ ?bs) \<in> set ?bs" using e by (simp add: last_append)
      with e have "last (ps @ ?bs) \<noteq> CHR '' ''" by metis
      with big have 3: "(wordRune c = 32) = (last (ps @ ?bs) = CHR '' '')" by simp
      have "length ?rest < length content" using shorter many by simp
      from less.hyps[OF this 1 2 3, of st'] obtain out where
        "scanLoop decode wordRune record_scanByte st' ?rest (wordRune c) (ps @ ?bs)
           = Some (Inr ((ps @ ?bs) @ out))" "\<not> adjacentSeparators ((ps @ ?bs) @ out)"
        by blast
      then show ?thesis
        unfolding unfold using many by (intro exI[of _ "?bs @ out"]) auto
    qed
  qed
qed

lemma advances_asciiDecode: "advances asciiDecode"
  by (auto simp: advances_def asciiDecode_def split: list.splits)

lemma wordRune_spec_nonneg: "\<forall>c. 0 \<le> wordRune_spec c"
  by (simp add: wordRune_spec_def)

lemma scanLoop_asciiDecode_step:
  "scanLoop asciiDecode wordRune record_scanByte () (b # bs) prev ps =
     (if wordRune (asciiRune b) = 32 \<and> prev = 32
      then scanLoop asciiDecode wordRune record_scanByte () bs prev ps
      else scanLoop asciiDecode wordRune record_scanByte () bs (wordRune (asciiRune b))
             (ps @ emit (wordRune (asciiRune b))))"
proof (cases "(of_char b :: int) < 128")
  case True
  then show ?thesis
    by (subst scanLoop.simps)
      (simp add: asciiDecode_def asciiRune_def Let_def emit_def record_scanByte_def
        foldl_record_scanByte)
next
  case False
  then show ?thesis
    by (subst scanLoop.simps)
      (simp add: asciiDecode_def asciiRune_def Let_def emit_def record_scanByte_def
        foldl_record_scanByte)
qed

lemma scanLoop_asciiDecode:
  "scanLoop asciiDecode wordRune record_scanByte () content prev ps =
     Some (Inr (ps @ concat (map emit (squeeze prev (map (\<lambda>b. wordRune (asciiRune b)) content)))))"
proof (induction content arbitrary: prev ps)
  case Nil
  show ?case by (subst scanLoop.simps) simp
next
  case (Cons b bs)
  show ?case
    by (simp add: scanLoop_asciiDecode_step Cons.IH)
qed

subsection \<open>Properties\<close>

text \<open>
  For every document, with a decoder that goes on and word runes that are not negative,
  the scan ends; the matcher is fed an opening separator, the content and a closing
  separator, and the opening separator with the content holds no two separators next to
  each other.
\<close>

lemma scanContent_returns:
  assumes "advances decode" and "\<forall>c. 0 \<le> wordRune c"
  shows "\<exists>body. scanContent decode wordRune record_scanByte [] st content =
                  Some (Inr (CHR '' '' # body @ [CHR '' ''])) \<and>
                \<not> adjacentSeparators (CHR '' '' # body) \<and>
                adjacentSeparators (CHR '' '' # body @ [CHR '' '']) =
                  (body = [] \<or> last body = CHR '' '')"
proof -
  from scanLoop_shape [OF assms, of "[CHR '' '']" 32 st content]
  obtain out where
    l: "scanLoop decode wordRune record_scanByte st content 32 [CHR '' ''] = Some (Inr ([CHR '' ''] @ out))"
    and a: "\<not> adjacentSeparators ([CHR '' ''] @ out)"
    by auto
  have "adjacentSeparators ((CHR '' '' # out) @ [CHR '' '']) =
          (adjacentSeparators (CHR '' '' # out) \<or> last (CHR '' '' # out) = CHR '' '' \<and> CHR '' '' = CHR '' '')"
    by (rule adjacentSeparators_snoc) simp
  with a have e: "adjacentSeparators (CHR '' '' # out @ [CHR '' '']) = (out = [] \<or> last out = CHR '' '')"
    by auto
  show ?thesis
    using l a e
    by (intro exI[of _ out]) (simp add: scanContent_def record_scanByte_def)
qed

text \<open>
  C6. The claim has runs of separators collapsed everywhere and one separator at each end
  of the stream, \<open>Hello,  World!\<close> being fed as \<open>hello world\<close> between two single
  separators. The loop does collapse the runs and drops the separators at the start, but
  line 69 feeds the closing separator whatever was fed last: for every document read by
  the ASCII decoder the matcher is fed a separator, the squeezed word runes re-encoded,
  and one more separator, so that a document whose last rune is a separator ends in two.
  For \<open>Hello,  World!\<close> the matcher is fed \<open>hello world\<close> with one separator
  before it and two after it.
\<close>

theorem scanContent_closing_separator:
  "scanContent asciiDecode wordRune record_scanByte [] () content =
     Some (Inr (CHR '' '' #
       concat (map emit (squeeze 32 (map (\<lambda>b. wordRune (asciiRune b)) content))) @ [CHR '' ''])) \<and>
   scanContent asciiDecode wordRune_spec record_scanByte [] () ''Hello,  World!'' =
     Some (Inr '' hello world  '') \<and>
   '' hello world  '' \<noteq> '' hello world ''"
proof -
  have 1: "scanContent asciiDecode w record_scanByte [] () content =
     Some (Inr (CHR '' '' #
       concat (map emit (squeeze 32 (map (\<lambda>b. w (asciiRune b)) content))) @ [CHR '' '']))"
    for w content
    by (simp add: scanContent_def scanLoop_asciiDecode record_scanByte_def)
  have 2: "CHR '' '' # concat (map emit (squeeze 32 (map (\<lambda>b. wordRune_spec (asciiRune b))
      ''Hello,  World!''))) @ [CHR '' ''] = '' hello world  ''"
    by (simp add: asciiRune_def wordRune_spec_def emit_def char_of_eq_iff take_bit_eq_mod)
  show ?thesis
    using 1[of wordRune content] 1[of wordRune_spec "''Hello,  World!''"] 2 by simp
qed

end
